theory Spec2Isabelle
  imports Complex_Main
begin

chapter \<open>The model\<close>

section \<open>JavaScript numbers\<close>

text \<open>
  A JavaScript number is modelled as a mathematical real, one of the two infinities, or
  NaN. The rounding of binary64 arithmetic and the sign of zero are not represented:
  every finite operation below is the exact real one. Comparisons with NaN are false and
  arithmetic on NaN gives NaN, as in the language.
\<close>

datatype jsnum = Fin real | PInf | NInf | NaN

text \<open>\<open>isFinite\<close> of underscore, on a number: true for finite numbers only.\<close>

fun isFinite :: "jsnum \<Rightarrow> bool" where
  "isFinite (Fin r) = True"
| "isFinite PInf = False"
| "isFinite NInf = False"
| "isFinite NaN = False"

text \<open>The operator \<open>===\<close> on numbers: NaN is not equal to itself.\<close>

fun js_eq :: "jsnum \<Rightarrow> jsnum \<Rightarrow> bool" where
  "js_eq NaN b = False"
| "js_eq a NaN = False"
| "js_eq a b = (a = b)"

text \<open>The operators \<open><\<close> and \<open><=\<close>.\<close>

fun js_less :: "jsnum \<Rightarrow> jsnum \<Rightarrow> bool" where
  "js_less (Fin a) (Fin b) = (a < b)"
| "js_less (Fin a) PInf = True"
| "js_less NInf (Fin b) = True"
| "js_less NInf PInf = True"
| "js_less a b = False"

fun js_le :: "jsnum \<Rightarrow> jsnum \<Rightarrow> bool" where
  "js_le NaN b = False"
| "js_le a NaN = False"
| "js_le a b = (a = b \<or> js_less a b)"

text \<open>The infinity that has the sign of a real; NaN for zero.\<close>

definition sgn_inf :: "real \<Rightarrow> jsnum" where
  "sgn_inf r = (if 0 < r then PInf else if r < 0 then NInf else NaN)"

fun js_neg :: "jsnum \<Rightarrow> jsnum" where
  "js_neg (Fin r) = Fin (- r)"
| "js_neg PInf = NInf"
| "js_neg NInf = PInf"
| "js_neg NaN = NaN"

fun js_plus :: "jsnum \<Rightarrow> jsnum \<Rightarrow> jsnum" where
  "js_plus (Fin a) (Fin b) = Fin (a + b)"
| "js_plus (Fin a) PInf = PInf"
| "js_plus (Fin a) NInf = NInf"
| "js_plus PInf (Fin b) = PInf"
| "js_plus NInf (Fin b) = NInf"
| "js_plus PInf PInf = PInf"
| "js_plus NInf NInf = NInf"
| "js_plus a b = NaN"

definition js_minus :: "jsnum \<Rightarrow> jsnum \<Rightarrow> jsnum" where
  "js_minus a b = js_plus a (js_neg b)"

fun js_times :: "jsnum \<Rightarrow> jsnum \<Rightarrow> jsnum" where
  "js_times (Fin a) (Fin b) = Fin (a * b)"
| "js_times (Fin a) PInf = sgn_inf a"
| "js_times (Fin a) NInf = sgn_inf (- a)"
| "js_times PInf (Fin b) = sgn_inf b"
| "js_times NInf (Fin b) = sgn_inf (- b)"
| "js_times PInf PInf = PInf"
| "js_times NInf NInf = PInf"
| "js_times PInf NInf = NInf"
| "js_times NInf PInf = NInf"
| "js_times a b = NaN"

text \<open>Division. Zero stands for positive zero, so a non-zero number divided by zero is
  the infinity of its sign.\<close>

fun js_divide :: "jsnum \<Rightarrow> jsnum \<Rightarrow> jsnum" where
  "js_divide (Fin a) (Fin b) = (if b = 0 then sgn_inf a else Fin (a / b))"
| "js_divide (Fin a) PInf = Fin 0"
| "js_divide (Fin a) NInf = Fin 0"
| "js_divide PInf (Fin b) = (if 0 \<le> b then PInf else NInf)"
| "js_divide NInf (Fin b) = (if 0 \<le> b then NInf else PInf)"
| "js_divide a b = NaN"

text \<open>\<open>Math.floor\<close>, \<open>Math.ceil\<close>, \<open>Math.round\<close> (round half up), \<open>Math.max\<close> and
  \<open>Math.min\<close> of two arguments.\<close>

fun math_floor :: "jsnum \<Rightarrow> jsnum" where
  "math_floor (Fin r) = Fin (of_int \<lfloor>r\<rfloor>)"
| "math_floor a = a"

fun math_ceil :: "jsnum \<Rightarrow> jsnum" where
  "math_ceil (Fin r) = Fin (of_int \<lceil>r\<rceil>)"
| "math_ceil a = a"

fun math_round :: "jsnum \<Rightarrow> jsnum" where
  "math_round (Fin r) = Fin (of_int \<lfloor>r + 1 / 2\<rfloor>)"
| "math_round a = a"

fun math_max :: "jsnum \<Rightarrow> jsnum \<Rightarrow> jsnum" where
  "math_max NaN b = NaN"
| "math_max a NaN = NaN"
| "math_max a b = (if js_less a b then b else a)"

fun math_min :: "jsnum \<Rightarrow> jsnum \<Rightarrow> jsnum" where
  "math_min NaN b = NaN"
| "math_min a NaN = NaN"
| "math_min a b = (if js_less b a then b else a)"

section \<open>Bounds of a globe, clamped to the view\<close>

text \<open>The view \<open>{width:, height:}\<close>: the size of the display in pixels.\<close>

record view =
  v_width :: int
  v_height :: int

text \<open>The object \<open>{x, y, xMax, yMax, width, height}\<close>. The components are numbers where
  \<open>clampedBounds\<close> builds it and integers where the field sweep counts with them.\<close>

record 'n bounds =
  b_x :: 'n
  b_y :: 'n
  b_xMax :: 'n
  b_yMax :: 'n
  b_width :: 'n
  b_height :: 'n

text \<open>\<open>ensureNumber(num, fallback)\<close>: a finite number and either infinity are kept, NaN
  gives the fallback.\<close>

definition ensureNumber :: "jsnum \<Rightarrow> jsnum \<Rightarrow> jsnum" where
  "ensureNumber num fallback =
     (if isFinite num \<or> js_eq num PInf \<or> js_eq num NInf then num else fallback)"

text \<open>\<open>clampedBounds(bounds, view)\<close>; \<open>bounds\<close> is \<open>[[x0, y0], [x1, y1]]\<close>.\<close>

definition clampedBounds ::
  "(jsnum \<times> jsnum) \<times> (jsnum \<times> jsnum) \<Rightarrow> view \<Rightarrow> jsnum bounds" where
  "clampedBounds bnds vw =
     (let upperLeft = fst bnds;
          lowerRight = snd bnds;
          x = math_max (math_floor (ensureNumber (fst upperLeft) (Fin 0))) (Fin 0);
          y = math_max (math_floor (ensureNumber (snd upperLeft) (Fin 0))) (Fin 0);
          xMax = math_min (math_ceil (ensureNumber (fst lowerRight) (Fin (of_int (v_width vw)))))
                   (js_minus (Fin (of_int (v_width vw))) (Fin 1));
          yMax = math_min (math_ceil (ensureNumber (snd lowerRight) (Fin (of_int (v_height vw)))))
                   (js_minus (Fin (of_int (v_height vw))) (Fin 1))
      in \<lparr>b_x = x, b_y = y, b_xMax = xMax, b_yMax = yMax,
          b_width = js_plus (js_minus xMax x) (Fin 1),
          b_height = js_plus (js_minus yMax y) (Fin 1)\<rparr>)"

section \<open>Projections and globes\<close>

text \<open>
  A d3 projection is an object of the d3-geo library, which is not part of the repository.
  The model keeps the state that the globes set and read through its accessors: the
  family it was made from, rotation, scale, translation, precision, clip angle and clip
  extent. A setter stores its argument and the getter returns what is stored.
\<close>

datatype d3_geo =
    GeoMollweide | GeoAzimuthalEquidistant | GeoConicEquidistant | GeoEquirectangular
  | GeoOrthographic | GeoStereographic | GeoPolyhedralWaterman | GeoWinkel3

type_synonym point = "jsnum \<times> jsnum"
type_synonym box = "point \<times> point"

record projection =
  p_geo :: d3_geo
  p_rotate :: "jsnum \<times> jsnum \<times> jsnum"
  p_scale :: jsnum
  p_translate :: point
  p_precision :: jsnum
  p_clipAngle :: "jsnum option"
  p_clipExtent :: "box option"

text \<open>
  What the code takes from its host and from libraries that are not in the repository:
  \<^item> \<open>h_d3\<close>: the projection a d3 factory returns;
  \<^item> \<open>h_sphereBounds\<close>: the bounding box d3 computes for the outline of the sphere under
    a projection, \<open>geoPath().projection(p).bounds({type: 'Sphere'})\<close>;
  \<^item> \<open>h_invert\<close>: \<open>projection.invert(point)\<close>, the coordinates \<open>[\<lambda>, \<phi>]\<close> of a pixel or
    nothing;
  \<^item> \<open>h_rasterize\<close>: the pixel data of a canvas of the size of the view on which the
    outline of the globe has been filled, as \<open>getImageData\<close> returns it (a typed array:
    byte \<open>i\<close>, or nothing outside the array);
  \<^item> \<open>h_timezoneOffset\<close>: \<open>new Date().getTimezoneOffset()\<close>;
  \<^item> \<open>h_floorMod\<close>, \<open>h_distance\<close>, \<open>h_distortion\<close>: \<open>utils.floorMod\<close>,
    \<open>utils.distance\<close> and \<open>utils.distortion\<close>;
  \<^item> \<open>h_random\<close>: \<open>random(min, max)\<close> of underscore; \<open>h_random h k lo hi\<close> is what the
    call number \<open>k\<close> returns;
  \<^item> \<open>h_toNumber\<close>, \<open>h_toFixed\<close>, \<open>h_toString\<close>: the conversion of a string to a number
    (the unary \<open>+\<close>), \<open>Number.prototype.toFixed\<close>, and the conversion of a number to
    a string (as \<open>join\<close> does it);
  \<^item> \<open>h_view\<close>: the view \<open>utils.view()\<close> of the module.
\<close>

record host =
  h_d3 :: "d3_geo \<Rightarrow> projection"
  h_sphereBounds :: "projection \<Rightarrow> box"
  h_invert :: "projection \<Rightarrow> point \<Rightarrow> point option"
  h_rasterize :: "projection \<Rightarrow> int \<Rightarrow> nat option"
  h_timezoneOffset :: jsnum
  h_floorMod :: "jsnum \<Rightarrow> jsnum \<Rightarrow> jsnum"
  h_distance :: "point \<Rightarrow> point \<Rightarrow> jsnum"
  h_distortion :: "projection \<Rightarrow> jsnum \<Rightarrow> jsnum \<Rightarrow> jsnum \<Rightarrow> jsnum \<Rightarrow> jsnum \<times> jsnum \<times> jsnum \<times> jsnum"
  h_random :: "nat \<Rightarrow> jsnum \<Rightarrow> jsnum \<Rightarrow> jsnum"
  h_toNumber :: "string \<Rightarrow> jsnum"
  h_toFixed :: "jsnum \<Rightarrow> nat \<Rightarrow> string"
  h_toString :: "jsnum \<Rightarrow> string"
  h_view :: view

text \<open>\<open>currentPosition()\<close>: the rotation \<open>[\<lambda>, 0]\<close> for the time zone of the user.\<close>

definition currentPosition :: "host \<Rightarrow> jsnum \<times> jsnum" where
  "currentPosition h =
     (let l = h_floorMod h (js_divide (h_timezoneOffset h) (Fin 4)) (Fin 360) in (l, Fin 0))"

text \<open>
  A globe: its current projection and the methods a variant may override
  (\<open>newProjection\<close>, \<open>center\<close>, \<open>locate\<close>). The methods that no variant overrides are
  functions on globes below. The drawing hooks \<open>defineMask\<close> and \<open>defineMap\<close> act on a
  canvas or an SVG document and are not modelled.
\<close>

record globe =
  g_projection :: projection
  g_newProjection :: "view \<Rightarrow> projection"
  g_center :: "view \<Rightarrow> point"
  g_locate :: "projection \<Rightarrow> point \<Rightarrow> (jsnum \<times> jsnum \<times> jsnum) option"

text \<open>\<open>bounds(view)\<close> of the standard globe.\<close>

definition bounds :: "host \<Rightarrow> globe \<Rightarrow> view \<Rightarrow> jsnum bounds" where
  "bounds h g vw = clampedBounds (h_sphereBounds h (g_projection g)) vw"

text \<open>\<open>fit(view)\<close>: the scale at which the whole globe fits in the view.\<close>

definition fit :: "host \<Rightarrow> globe \<Rightarrow> view \<Rightarrow> jsnum" where
  "fit h g vw =
     (let defaultProjection = g_newProjection g vw;
          bnds = h_sphereBounds h defaultProjection;
          hScale = js_divide (js_minus (fst (snd bnds)) (fst (fst bnds))) (p_scale defaultProjection);
          vScale = js_divide (js_minus (snd (snd bnds)) (snd (fst bnds))) (p_scale defaultProjection)
      in js_times (math_min (js_divide (Fin (of_int (v_width vw))) hScale)
                            (js_divide (Fin (of_int (v_height vw))) vScale))
                  (Fin (9 / 10)))"

text \<open>\<open>center(view)\<close> of the standard globe and \<open>scaleExtent()\<close>.\<close>

definition center :: "view \<Rightarrow> point" where
  "center vw = (js_divide (Fin (of_int (v_width vw))) (Fin 2),
                js_divide (Fin (of_int (v_height vw))) (Fin 2))"

definition scaleExtent :: "jsnum \<times> jsnum" where
  "scaleExtent = (Fin 25, Fin 3000)"

text \<open>\<open>locate(coord)\<close> of the standard globe: no reorientation.\<close>

definition locate :: "projection \<Rightarrow> point \<Rightarrow> (jsnum \<times> jsnum \<times> jsnum) option" where
  "locate p coord = None"

text \<open>
  \<open>newGlobe(source, view)\<close>: the standard globe extended by the members of \<open>source\<close>,
  with its projection made by the \<open>newProjection\<close> of the result. \<open>source\<close> always has a
  \<open>newProjection\<close>; \<open>center\<close> and \<open>locate\<close> are there for some variants only.
\<close>

record source =
  s_newProjection :: "view \<Rightarrow> projection"
  s_center :: "(view \<Rightarrow> point) option"
  s_locate :: "(projection \<Rightarrow> point \<Rightarrow> (jsnum \<times> jsnum \<times> jsnum) option) option"

definition newGlobe :: "source \<Rightarrow> view \<Rightarrow> globe" where
  "newGlobe src vw =
     (let newProjection = s_newProjection src
      in \<lparr>g_projection = newProjection vw,
          g_newProjection = newProjection,
          g_center = (case s_center src of None \<Rightarrow> center | Some c \<Rightarrow> c),
          g_locate = (case s_locate src of None \<Rightarrow> locate | Some l \<Rightarrow> l)\<rparr>)"

text \<open>The setters of a d3 projection that the variants call. \<open>rotate\<close> with two angles
  sets the third to 0.\<close>

definition d3_rotate2 :: "jsnum \<times> jsnum \<Rightarrow> projection \<Rightarrow> projection" where
  "d3_rotate2 r p = p\<lparr>p_rotate := (fst r, snd r, Fin 0)\<rparr>"

definition d3_rotate3 :: "jsnum \<times> jsnum \<times> jsnum \<Rightarrow> projection \<Rightarrow> projection" where
  "d3_rotate3 r p = p\<lparr>p_rotate := r\<rparr>"

definition d3_precision :: "jsnum \<Rightarrow> projection \<Rightarrow> projection" where
  "d3_precision a p = p\<lparr>p_precision := a\<rparr>"

definition d3_clipAngle :: "jsnum \<Rightarrow> projection \<Rightarrow> projection" where
  "d3_clipAngle a p = p\<lparr>p_clipAngle := Some a\<rparr>"

definition d3_clipExtent :: "box \<Rightarrow> projection \<Rightarrow> projection" where
  "d3_clipExtent e p = p\<lparr>p_clipExtent := Some e\<rparr>"

text \<open>
  The eight variants. Seven of them call \<open>newGlobe\<close> with no view; their \<open>newProjection\<close>
  does not read its argument, so the model passes the view it has.
\<close>

definition atlantis :: "host \<Rightarrow> view \<Rightarrow> globe" where
  "atlantis h vw = newGlobe
     \<lparr>s_newProjection = (\<lambda>_. d3_precision (Fin (1 / 10))
          (d3_rotate3 (Fin 30, Fin (- 45), Fin 90) (h_d3 h GeoMollweide))),
      s_center = None, s_locate = None\<rparr> vw"

definition azimuthalEquidistant :: "host \<Rightarrow> view \<Rightarrow> globe" where
  "azimuthalEquidistant h vw = newGlobe
     \<lparr>s_newProjection = (\<lambda>_. d3_clipAngle (Fin (180 - 1 / 1000))
          (d3_rotate2 (Fin 0, Fin (- 90))
            (d3_precision (Fin (1 / 10)) (h_d3 h GeoAzimuthalEquidistant)))),
      s_center = None, s_locate = None\<rparr> vw"

definition conicEquidistant :: "host \<Rightarrow> view \<Rightarrow> globe" where
  "conicEquidistant h vw = newGlobe
     \<lparr>s_newProjection = (\<lambda>_. d3_precision (Fin (1 / 10))
          (d3_rotate2 (currentPosition h) (h_d3 h GeoConicEquidistant))),
      s_center = Some (\<lambda>view. (js_divide (Fin (of_int (v_width view))) (Fin 2),
          js_plus (js_divide (Fin (of_int (v_height view))) (Fin 2))
                  (js_times (Fin (of_int (v_height view))) (Fin (65 / 1000))))),
      s_locate = None\<rparr> vw"

definition equirectangular :: "host \<Rightarrow> view \<Rightarrow> globe" where
  "equirectangular h vw = newGlobe
     \<lparr>s_newProjection = (\<lambda>_. d3_precision (Fin (1 / 10))
          (d3_rotate2 (currentPosition h) (h_d3 h GeoEquirectangular))),
      s_center = None, s_locate = None\<rparr> vw"

definition orthographic :: "host \<Rightarrow> view \<Rightarrow> globe" where
  "orthographic h vw = newGlobe
     \<lparr>s_newProjection = (\<lambda>_. d3_clipAngle (Fin 90) (d3_precision (Fin (1 / 10))
          (d3_rotate2 (currentPosition h) (h_d3 h GeoOrthographic)))),
      s_center = None,
      s_locate = Some (\<lambda>p coord.
          Some (js_neg (fst coord), js_neg (snd coord), snd (snd (p_rotate p))))\<rparr> vw"

definition stereographic :: "host \<Rightarrow> view \<Rightarrow> globe" where
  "stereographic h vw = newGlobe
     \<lparr>s_newProjection = (\<lambda>view.
          d3_clipExtent ((Fin 0, Fin 0), (Fin (of_int (v_width view)), Fin (of_int (v_height view))))
            (d3_clipAngle (Fin (180 - 1 / 10000)) (d3_precision (Fin 1)
              (d3_rotate2 (Fin (- 43), Fin (- 20)) (h_d3 h GeoStereographic))))),
      s_center = None, s_locate = None\<rparr> vw"

definition waterman :: "host \<Rightarrow> view \<Rightarrow> globe" where
  "waterman h vw = newGlobe
     \<lparr>s_newProjection = (\<lambda>_. d3_precision (Fin (1 / 10))
          (d3_rotate2 (Fin 20, Fin 0) (h_d3 h GeoPolyhedralWaterman))),
      s_center = None, s_locate = None\<rparr> vw"

definition winkel3 :: "host \<Rightarrow> view \<Rightarrow> globe" where
  "winkel3 h vw = newGlobe
     \<lparr>s_newProjection = (\<lambda>_. d3_precision (Fin (1 / 10)) (h_d3 h GeoWinkel3)),
      s_center = None, s_locate = None\<rparr> vw"

text \<open>The registry \<open>globes\<close>: a Map from the name of a projection to its builder.\<close>

definition globes :: "(string \<times> (host \<Rightarrow> view \<Rightarrow> globe)) list" where
  "globes =
     [(''atlantis'', atlantis),
      (''azimuthal_equidistant'', azimuthalEquidistant),
      (''conic_equidistant'', conicEquidistant),
      (''equirectangular'', equirectangular),
      (''orthographic'', orthographic),
      (''stereographic'', stereographic),
      (''waterman'', waterman),
      (''winkel3'', winkel3)]"

section \<open>Building a globe\<close>

text \<open>
  A promise is rejected with a reason, fulfilled with a value, or pending. The argument of
  the language's \<open>Promise\<close> constructor is a value: an object, or a function (the
  executor), which the model identifies with the promise that running it leaves. The
  constructor throws a TypeError when its argument is not callable.
\<close>

datatype 'a promise = Rejected string | Fulfilled 'a | Pending

datatype js_error = TypeError string

datatype 'a js_value = JObject 'a | JFunction "'a promise"

fun new_Promise :: "'a js_value \<Rightarrow> js_error + 'a promise" where
  "new_Promise (JFunction outcome) = Inr outcome"
| "new_Promise (JObject v) = Inl (TypeError ''Promise resolver is not a function'')"

text \<open>\<open>buildGlobe(projectionName)\<close>. A builder returns the globe, an object.\<close>

definition buildGlobe :: "host \<Rightarrow> string \<Rightarrow> js_error + globe promise" where
  "buildGlobe h projectionName =
     (case map_of globes projectionName of
        None \<Rightarrow> Inr (Rejected (''Unknown projection: '' @ projectionName))
      | Some builder \<Rightarrow> new_Promise (JObject (builder h (h_view h))))"

section \<open>Distortion of a wind vector\<close>

text \<open>
  A wind vector is the array \<open>[u, v, magnitude]\<close>; the magnitude is a number or \<open>null\<close>
  (\<open>None\<close>). \<open>distort\<close> assigns to the elements 0 and 1 of the array it is given and
  returns that array: the model takes the contents of the array and returns its contents
  after the call.
\<close>

type_synonym vec = "jsnum \<times> jsnum \<times> jsnum option"

definition distort ::
  "host \<Rightarrow> projection \<Rightarrow> jsnum \<Rightarrow> jsnum \<Rightarrow> jsnum \<Rightarrow> jsnum \<Rightarrow> jsnum \<Rightarrow> vec \<Rightarrow> vec" where
  "distort h projection l f x y scale wind =
     (let u = js_times (fst wind) scale;
          v = js_times (fst (snd wind)) scale;
          d = h_distortion h projection l f x y;
          d0 = fst d; d1 = fst (snd d); d2 = fst (snd (snd d)); d3 = snd (snd (snd d))
      in (js_plus (js_times d0 u) (js_times d2 v),
          js_plus (js_times d1 u) (js_times d3 v),
          snd (snd wind)))"

text \<open>
  The words of the specification: the array \<open>[d0, d1, d2, d3]\<close> of \<open>utils.distortion\<close> is a
  2\<times>2 linear map whose columns \<open>(d0, d1)\<close> and \<open>(d2, d3)\<close> are the images on the screen of the
  unit steps in longitude and latitude; a vector is multiplied through it.
\<close>

definition distortion_map ::
  "jsnum \<times> jsnum \<times> jsnum \<times> jsnum \<Rightarrow> (jsnum \<times> jsnum) \<times> (jsnum \<times> jsnum)" where
  "distortion_map d = ((fst d, fst (snd (snd d))), (fst (snd d), snd (snd (snd d))))"

definition mat2_apply :: "(jsnum \<times> jsnum) \<times> (jsnum \<times> jsnum) \<Rightarrow> jsnum \<times> jsnum \<Rightarrow> jsnum \<times> jsnum" where
  "mat2_apply m w =
     (js_plus (js_times (fst (fst m)) (fst w)) (js_times (snd (fst m)) (snd w)),
      js_plus (js_times (fst (snd m)) (fst w)) (js_times (snd (snd m)) (snd w)))"

section \<open>The mask\<close>

text \<open>
  \<open>createMask(globe)\<close> fills the outline of the globe on a canvas of the size of the view
  and keeps its pixel data, four bytes \<open>r, g, b, a\<close> for each pixel, row after row.
  Reading a typed array outside its length gives \<open>undefined\<close>; writing there does
  nothing, and a written value is clamped to a byte.
\<close>

type_synonym rgba = "nat \<times> nat \<times> nat \<times> nat"

record mask =
  m_width :: int
  m_data :: "int \<Rightarrow> nat option"

definition createMask :: "host \<Rightarrow> globe \<Rightarrow> mask" where
  "createMask h g = \<lparr>m_width = v_width (h_view h), m_data = h_rasterize h (g_projection g)\<rparr>"

definition data_set :: "(int \<Rightarrow> nat option) \<Rightarrow> int \<Rightarrow> nat \<Rightarrow> (int \<Rightarrow> nat option)" where
  "data_set d i v = (if d i = None then d else d(i \<mapsto> min v 255))"

definition isVisible :: "mask \<Rightarrow> int \<Rightarrow> int \<Rightarrow> bool" where
  "isVisible m x y =
     (let i = (y * m_width m + x) * 4
      in case m_data m (i + 3) of None \<Rightarrow> False | Some a \<Rightarrow> 0 < a)"

definition mask_set :: "mask \<Rightarrow> int \<Rightarrow> int \<Rightarrow> rgba \<Rightarrow> mask" where
  "mask_set m x y c =
     (let i = (y * m_width m + x) * 4
      in m\<lparr>m_data :=
            data_set (data_set (data_set (data_set (m_data m) i (fst c))
              (i + 1) (fst (snd c))) (i + 2) (fst (snd (snd c)))) (i + 3) (snd (snd (snd c)))\<rparr>)"

section \<open>The field\<close>

text \<open>
  An entry of a column is a reference to an array. \<open>NULL_WIND_VECTOR\<close> and \<open>HOLE_VECTOR\<close>
  are two arrays with the same contents \<open>[NaN, NaN, null]\<close> that the code tells apart by
  identity; every other entry is an array that a grid returned. The constructors keep
  the identity and \<open>contents\<close> gives the elements.
\<close>

datatype vref = NULL_WIND_VECTOR | HOLE_VECTOR | Wind vec

fun contents :: "vref \<Rightarrow> vec" where
  "contents NULL_WIND_VECTOR = (NaN, NaN, None)"
| "contents HOLE_VECTOR = (NaN, NaN, None)"
| "contents (Wind w) = w"

definition TRANSPARENT_BLACK :: rgba where
  "TRANSPARENT_BLACK = (0, 0, 0, 0)"

definition OVERLAY_ALPHA :: nat where
  "OVERLAY_ALPHA = nat \<lfloor>(4 / 10 :: real) * 255\<rfloor>"

text \<open>
  An array with the elements that were assigned to it, by index. Indexing with a number
  finds an element when the number is an integer that was assigned to.
\<close>

type_synonym 'a js_array = "int \<Rightarrow> 'a option"

fun js_index :: "'a js_array \<Rightarrow> jsnum \<Rightarrow> 'a option" where
  "js_index a (Fin r) = (if r = of_int \<lfloor>r\<rfloor> then a \<lfloor>r\<rfloor> else None)"
| "js_index a n = None"

record field =
  f_columns :: "vref js_array js_array"
  f_bounds :: "jsnum bounds"
  f_overlay :: "int \<Rightarrow> nat option"

definition createField :: "vref js_array js_array \<Rightarrow> jsnum bounds \<Rightarrow> mask \<Rightarrow> field" where
  "createField columns bnds msk = \<lparr>f_columns = columns, f_bounds = bnds, f_overlay = m_data msk\<rparr>"

text \<open>\<open>field(x, y)\<close>, \<open>field.isDefined\<close>, \<open>field.isInsideBoundary\<close>, \<open>field.release\<close>.\<close>

definition lookup :: "field \<Rightarrow> jsnum \<Rightarrow> jsnum \<Rightarrow> vref" where
  "lookup fld x y =
     (case js_index (f_columns fld) (math_round x) of
        None \<Rightarrow> NULL_WIND_VECTOR
      | Some column \<Rightarrow>
          (case js_index column (math_round y) of
             None \<Rightarrow> NULL_WIND_VECTOR
           | Some w \<Rightarrow> w))"

definition isDefined :: "field \<Rightarrow> jsnum \<Rightarrow> jsnum \<Rightarrow> bool" where
  "isDefined fld x y = (snd (snd (contents (lookup fld x y))) \<noteq> None)"

definition isInsideBoundary :: "field \<Rightarrow> jsnum \<Rightarrow> jsnum \<Rightarrow> bool" where
  "isInsideBoundary fld x y = (lookup fld x y \<noteq> NULL_WIND_VECTOR)"

definition release :: "field \<Rightarrow> field" where
  "release fld = fld\<lparr>f_columns := Map.empty\<rparr>"

text \<open>
  \<open>field.randomize(o)\<close>. The loop draws a point and goes on while the field is not
  defined there and \<open>safetyNet++ < 30\<close>; \<open>safetyNet\<close> counts the draws made before this
  one, and each draw calls \<open>random\<close> twice.
\<close>

function randomize_loop :: "host \<Rightarrow> field \<Rightarrow> nat \<Rightarrow> jsnum \<times> jsnum" where
  "randomize_loop h fld safetyNet =
     (let x = math_round (h_random h (2 * safetyNet) (b_x (f_bounds fld)) (b_xMax (f_bounds fld)));
          y = math_round (h_random h (2 * safetyNet + 1) (b_y (f_bounds fld)) (b_yMax (f_bounds fld)))
      in if \<not> isDefined fld x y \<and> safetyNet < 30
         then randomize_loop h fld (safetyNet + 1)
         else (x, y))"
  by pat_completeness auto
termination
  by (relation "measure (\<lambda>(h, fld, safetyNet). 31 - safetyNet)") auto

declare randomize_loop.simps [simp del]

record xy =
  o_x :: jsnum
  o_y :: jsnum

definition randomize :: "host \<Rightarrow> field \<Rightarrow> 'a xy_scheme \<Rightarrow> 'a xy_scheme" where
  "randomize h fld o' =
     (let p = randomize_loop h fld 0 in o'\<lparr>o_x := fst p, o_y := snd p\<rparr>)"

text \<open>The point of the draw number \<open>k\<close> of \<open>randomize\<close> (counted from 0), rounded.\<close>

definition draw :: "host \<Rightarrow> field \<Rightarrow> nat \<Rightarrow> jsnum \<times> jsnum" where
  "draw h fld k =
     (math_round (h_random h (2 * k) (b_x (f_bounds fld)) (b_xMax (f_bounds fld))),
      math_round (h_random h (2 * k + 1) (b_y (f_bounds fld)) (b_yMax (f_bounds fld))))"

section \<open>Interpolation of the field\<close>

text \<open>
  The grids \<open>{primaryGrid, overlayGrid}\<close>. \<open>primaryGrid.interpolate\<close> returns a wind vector
  or nothing, \<open>overlayGrid.interpolate\<close> a scalar or nothing, \<open>overlayGrid.scale.gradient\<close>
  a colour; \<open>g_hasDistinctOverlay\<close> is \<open>primaryGrid !== overlayGrid\<close>.
\<close>

record grids =
  g_interpolate :: "jsnum \<Rightarrow> jsnum \<Rightarrow> vec option"
  g_velocityScale :: jsnum
  g_overlayInterpolate :: "jsnum \<Rightarrow> jsnum \<Rightarrow> jsnum option"
  g_gradient :: "jsnum \<Rightarrow> nat \<Rightarrow> rgba"
  g_hasDistinctOverlay :: bool

text \<open>
  The body of \<open>if (mask.isVisible(x, y))\<close> up to the assignments: the colour and the wind
  (or nothing) of the pixel \<open>(x, y)\<close>.
\<close>

definition interpolatePoint ::
  "host \<Rightarrow> projection \<Rightarrow> grids \<Rightarrow> jsnum \<Rightarrow> int \<Rightarrow> int \<Rightarrow> rgba \<times> vec option" where
  "interpolatePoint h projection gr velocityScale x y =
     (case h_invert h projection (Fin (of_int x), Fin (of_int y)) of
        None \<Rightarrow> (TRANSPARENT_BLACK, None)
      | Some coord \<Rightarrow>
          (let l = fst coord; f = snd coord in
           if isFinite l then
             (let wind = (case g_interpolate gr l f of
                            None \<Rightarrow> None
                          | Some w \<Rightarrow> Some (distort h projection l f (Fin (of_int x)) (Fin (of_int y))
                                              velocityScale w));
                  scalar = (case wind of None \<Rightarrow> None | Some w \<Rightarrow> snd (snd w));
                  scalar = (if g_hasDistinctOverlay gr then g_overlayInterpolate gr l f else scalar)
              in (case scalar of
                    None \<Rightarrow> (TRANSPARENT_BLACK, wind)
                  | Some s \<Rightarrow> (g_gradient gr s OVERLAY_ALPHA, wind)))
           else (TRANSPARENT_BLACK, None)))"

text \<open>\<open>wind || HOLE_VECTOR\<close>: the entry that is assigned to the column.\<close>

fun or_HOLE_VECTOR :: "vec option \<Rightarrow> vref" where
  "or_HOLE_VECTOR None = HOLE_VECTOR"
| "or_HOLE_VECTOR (Some wind) = Wind wind"

text \<open>
  The loop of \<open>interpolateColumn(x)\<close> over \<open>y = bounds.y, bounds.y + 2, ...\<close> while
  \<open>y <= bounds.yMax\<close>; the state is the mask and the column being built.
\<close>

function column_loop ::
  "host \<Rightarrow> projection \<Rightarrow> grids \<Rightarrow> jsnum \<Rightarrow> int bounds \<Rightarrow> int \<Rightarrow> int \<Rightarrow>
   mask \<times> vref js_array \<Rightarrow> mask \<times> vref js_array" where
  "column_loop h projection gr velocityScale bnds x y st =
     (if y \<le> b_yMax bnds then
        column_loop h projection gr velocityScale bnds x (y + 2)
          (if isVisible (fst st) x y then
             (let cw = interpolatePoint h projection gr velocityScale x y;
                  color = fst cw;
                  w = or_HOLE_VECTOR (snd cw)
              in (mask_set (mask_set (mask_set (mask_set (fst st) x y color)
                    (x + 1) y color) x (y + 1) color) (x + 1) (y + 1) color,
                  (snd st)(y \<mapsto> w, y + 1 \<mapsto> w)))
           else st)
      else st)"
  by pat_completeness auto
termination
  by (relation "measure (\<lambda>(h, projection, gr, velocityScale, bnds, x, y, st). nat (b_yMax bnds + 1 - y))") auto

declare column_loop.simps [simp del]

definition interpolateColumn ::
  "host \<Rightarrow> projection \<Rightarrow> grids \<Rightarrow> jsnum \<Rightarrow> int bounds \<Rightarrow> int \<Rightarrow>
   mask \<times> vref js_array js_array \<Rightarrow> mask \<times> vref js_array js_array" where
  "interpolateColumn h projection gr velocityScale bnds x st =
     (let mc = column_loop h projection gr velocityScale bnds x (b_y bnds) (fst st, Map.empty)
      in (fst mc, (snd st)(x \<mapsto> snd mc, x + 1 \<mapsto> snd mc)))"

text \<open>
  The loop of \<open>batchInterpolate\<close> over \<open>x = bounds.x, bounds.x + 2, ...\<close> while
  \<open>x < bounds.xMax\<close>. When a batch has used its time the function schedules itself and
  returns; the next batch goes on with the same \<open>x\<close>, \<open>columns\<close> and mask, so the columns
  are those of one loop. The model takes the projection, the grids and the mask to be
  left alone by the rest of the program between two batches.
\<close>

function batchInterpolate ::
  "host \<Rightarrow> projection \<Rightarrow> grids \<Rightarrow> jsnum \<Rightarrow> int bounds \<Rightarrow> int \<Rightarrow>
   mask \<times> vref js_array js_array \<Rightarrow> mask \<times> vref js_array js_array" where
  "batchInterpolate h projection gr velocityScale bnds x st =
     (if x < b_xMax bnds then
        batchInterpolate h projection gr velocityScale bnds (x + 2)
          (interpolateColumn h projection gr velocityScale bnds x st)
      else st)"
  by pat_completeness auto
termination
  by (relation "measure (\<lambda>(h, projection, gr, velocityScale, bnds, x, st). nat (b_xMax bnds - x))") auto

declare batchInterpolate.simps [simp del]

text \<open>
  The components of the bounds as integers, when all four corners are finite. The corners
  that \<open>clampedBounds\<close> returns are integers or infinite.
\<close>

fun to_int :: "jsnum \<Rightarrow> int option" where
  "to_int (Fin r) = (if r = of_int \<lfloor>r\<rfloor> then Some \<lfloor>r\<rfloor> else None)"
| "to_int a = None"

definition int_bounds :: "jsnum bounds \<Rightarrow> int bounds option" where
  "int_bounds b =
     (case (to_int (b_x b), to_int (b_y b), to_int (b_xMax b), to_int (b_yMax b)) of
        (Some x, Some y, Some xMax, Some yMax) \<Rightarrow>
          Some \<lparr>b_x = x, b_y = y, b_xMax = xMax, b_yMax = yMax,
                b_width = xMax - x + 1, b_height = yMax - y + 1\<rparr>
      | _ \<Rightarrow> None)"

text \<open>
  \<open>interpolateField(globe, grids)\<close>: the field that the promise is resolved with. With an
  infinite corner (\<open>x\<close> or \<open>y\<close> is \<open>Infinity\<close>, \<open>xMax\<close> or \<open>yMax\<close> is \<open>-Infinity\<close>) one of
  the two loops does not run: no entry of a column is assigned and the mask is not
  written to. The model then leaves \<open>columns\<close> empty; when only the loop over \<open>y\<close> does
  not run the code assigns empty columns, which no lookup tells from no column.
\<close>

definition interpolateField :: "host \<Rightarrow> globe \<Rightarrow> grids \<Rightarrow> field" where
  "interpolateField h g gr =
     (let msk = createMask h g;
          projection = g_projection g;
          bnds = bounds h g (h_view h);
          velocityScale = js_times (b_height bnds) (g_velocityScale gr)
      in case int_bounds bnds of
           Some ib \<Rightarrow>
             (let mc = batchInterpolate h projection gr velocityScale ib (b_x ib) (msk, Map.empty)
              in createField (snd mc) bnds (fst mc))
         | None \<Rightarrow> createField Map.empty bnds msk)"

text \<open>
  The sweep samples the pixels \<open>(bounds.x + 2i, bounds.y + 2j)\<close> and assigns what it finds
  there to the 2 by 2 block of which the sampled pixel is the upper left corner.
  \<open>block_origin b p\<close> is the coordinate of the sampled pixel of the block that holds the
  coordinate \<open>p\<close>, for the lower bound \<open>b\<close>; \<open>swept\<close> says that the sweep reaches the block
  of a pixel.
\<close>

definition block_origin :: "int \<Rightarrow> int \<Rightarrow> int" where
  "block_origin b p = p - (p - b) mod 2"

definition swept :: "int bounds \<Rightarrow> int \<Rightarrow> int \<Rightarrow> bool" where
  "swept bnds px py =
     (b_x bnds \<le> px \<and> block_origin (b_x bnds) px < b_xMax bnds \<and>
      b_y bnds \<le> py \<and> block_origin (b_y bnds) py \<le> b_yMax bnds)"

section \<open>The orientation of a globe\<close>

text \<open>\<open>o.split(',')\<close> and \<open>parts.join(',')\<close>.\<close>

fun split_comma :: "string \<Rightarrow> string list" where
  "split_comma [] = [[]]"
| "split_comma (c # cs) =
     (if c = CHR '','' then [] # split_comma cs
      else (case split_comma cs of [] \<Rightarrow> [[c]] | p # ps \<Rightarrow> (c # p) # ps))"

fun join_comma :: "string list \<Rightarrow> string" where
  "join_comma [] = []"
| "join_comma [p] = p"
| "join_comma (p # ps) = p @ CHR '','' # join_comma ps"

text \<open>\<open>+parts[i]\<close>: an element that is not there is \<open>undefined\<close>, which converts to NaN.\<close>

definition part_number :: "host \<Rightarrow> string list \<Rightarrow> nat \<Rightarrow> jsnum" where
  "part_number h parts i = (if i < length parts then h_toNumber h (parts ! i) else NaN)"

text \<open>Modelled from the spec: \<open>utils.clamp(x, low, high)\<close>, which is not in the sources; the
  orientation setter "clamps scale to \<open>scaleExtent()\<close>".\<close>

definition clamp :: "jsnum \<Rightarrow> jsnum \<Rightarrow> jsnum \<Rightarrow> jsnum" where
  "clamp x low high = math_max low (math_min x high)"

text \<open>
  \<open>orientation(o, view)\<close>. Without \<open>o\<close> it returns the orientation as a string; with \<open>o\<close>
  it changes the projection of the globe and returns the globe.
\<close>

datatype orientation_result = Orientation string | This globe

definition orientation :: "host \<Rightarrow> globe \<Rightarrow> string option \<Rightarrow> view \<Rightarrow> orientation_result" where
  "orientation h g o' vw =
     (let projection = g_projection g;
          rotate = p_rotate projection
      in case o' of
           Some s \<Rightarrow>
             (let parts = split_comma s;
                  l = part_number h parts 0;
                  f = part_number h parts 1;
                  scale = part_number h parts 2;
                  extent = scaleExtent;
                  projection = projection\<lparr>p_rotate :=
                    (if isFinite l \<and> isFinite f then (js_neg l, js_neg f, snd (snd rotate))
                     else p_rotate (g_newProjection g vw))\<rparr>;
                  projection = projection\<lparr>p_scale :=
                    (if isFinite scale then clamp scale (fst extent) (snd extent)
                     else fit h g vw)\<rparr>;
                  projection = projection\<lparr>p_translate := g_center g vw\<rparr>
              in This (g\<lparr>g_projection := projection\<rparr>))
         | None \<Rightarrow>
             Orientation (join_comma
               [h_toFixed h (js_neg (fst rotate)) 2,
                h_toFixed h (js_neg (fst (snd rotate))) 2,
                h_toString h (math_round (p_scale projection))]))"

text \<open>\<open>globe.orientation(globe.orientation(), view)\<close>.\<close>

definition reorient :: "host \<Rightarrow> globe \<Rightarrow> view \<Rightarrow> orientation_result" where
  "reorient h g vw =
     (case orientation h g None vw of
        Orientation s \<Rightarrow> orientation h g (Some s) vw
      | This g' \<Rightarrow> This g')"

section \<open>The input controller\<close>

text \<open>\<open>manipulator(startMouse, startScale)\<close> keeps four values and raises the precision of
  the projection; \<open>move\<close> and \<open>end\<close> change the projection.\<close>

record manipulator =
  man_startMouse :: point
  man_sensitivity :: jsnum
  man_rotation :: point
  man_original :: jsnum

definition manipulator :: "globe \<Rightarrow> point \<Rightarrow> jsnum \<Rightarrow> manipulator \<times> globe" where
  "manipulator g startMouse startScale =
     (let projection = g_projection g;
          sensitivity = js_divide (Fin 60) startScale;
          rotation = (js_divide (fst (p_rotate projection)) sensitivity,
                      js_divide (js_neg (fst (snd (p_rotate projection)))) sensitivity);
          original = p_precision projection
      in (\<lparr>man_startMouse = startMouse, man_sensitivity = sensitivity,
           man_rotation = rotation, man_original = original\<rparr>,
          g\<lparr>g_projection := projection\<lparr>p_precision := js_times original (Fin 10)\<rparr>\<rparr>))"

definition manipulator_move :: "manipulator \<Rightarrow> point option \<Rightarrow> jsnum \<Rightarrow> projection \<Rightarrow> projection" where
  "manipulator_move m mouse scale projection =
     (let projection =
        (case mouse of
           None \<Rightarrow> projection
         | Some ms \<Rightarrow>
             (let xd = js_plus (js_minus (fst ms) (fst (man_startMouse m))) (fst (man_rotation m));
                  yd = js_plus (js_minus (snd ms) (snd (man_startMouse m))) (snd (man_rotation m))
              in projection\<lparr>p_rotate :=
                   (js_times xd (man_sensitivity m),
                    js_times (js_neg yd) (man_sensitivity m),
                    snd (snd (p_rotate projection)))\<rparr>))
      in projection\<lparr>p_scale := scale\<rparr>)"

definition manipulator_end :: "manipulator \<Rightarrow> projection \<Rightarrow> projection" where
  "manipulator_end m projection = projection\<lparr>p_precision := man_original m\<rparr>"

text \<open>
  The state of \<open>buildInputController\<close>: the globe, the operation \<open>op\<close> (or \<open>null\<close>), and the
  calls of \<open>dispatch.trigger\<close> and of the debounced \<open>signalEnd\<close> made so far.
\<close>

datatype gesture = Click | Spurious | Drag | Zoom

record op =
  op_type :: gesture
  op_startMouse :: point
  op_startScale :: jsnum
  op_manipulator :: manipulator

datatype effect = MoveStart | Move | ClickAt point "point option" | SignalEnd

record controller =
  c_globe :: globe
  c_op :: "op option"
  c_trace :: "effect list"

definition MIN_MOVE :: jsnum where
  "MIN_MOVE = Fin 4"

definition newOp :: "controller \<Rightarrow> point \<Rightarrow> jsnum \<Rightarrow> op \<times> controller" where
  "newOp c startMouse startScale =
     (let mg = manipulator (c_globe c) startMouse startScale
      in (\<lparr>op_type = Click, op_startMouse = startMouse, op_startScale = startScale,
           op_manipulator = fst mg\<rparr>,
          c\<lparr>c_globe := snd mg\<rparr>))"

text \<open>The handler of \<open>zoomstart\<close>; \<open>mouse\<close> is \<open>d3.pointer(this)\<close> and the start scale is
  \<open>d3.zoomIdentity.k\<close>, which is 1.\<close>

definition zoomstart :: "controller \<Rightarrow> point \<Rightarrow> controller" where
  "zoomstart c mouse =
     (case c_op c of
        Some op \<Rightarrow> c
      | None \<Rightarrow> (let oc = newOp c mouse (Fin 1) in (snd oc)\<lparr>c_op := Some (fst oc)\<rparr>))"

text \<open>The handler of \<open>zoom\<close>; \<open>currentMouse\<close> is \<open>d3.pointer(this)\<close> and \<open>currentScale\<close> is
  \<open>event.scale\<close>.\<close>

definition zoom :: "host \<Rightarrow> controller \<Rightarrow> point \<Rightarrow> jsnum \<Rightarrow> controller" where
  "zoom h c currentMouse currentScale =
     (let oc = (case c_op c of Some op \<Rightarrow> (op, c) | None \<Rightarrow> newOp c currentMouse (Fin 1));
          op = fst oc;
          c = snd oc;
          distanceMoved = h_distance h currentMouse (op_startMouse op)
      in if (op_type op = Click \<or> op_type op = Spurious)
            \<and> js_eq currentScale (op_startScale op) \<and> js_less distanceMoved MIN_MOVE
         then c\<lparr>c_op := Some (op\<lparr>op_type := (if js_less (Fin 0) distanceMoved then Click else Spurious)\<rparr>)\<rparr>
         else
           (let c = (if op_type op = Click \<or> op_type op = Spurious
                     then c\<lparr>c_trace := c_trace c @ [MoveStart]\<rparr> else c);
                op = (if op_type op = Click \<or> op_type op = Spurious
                      then op\<lparr>op_type := Drag\<rparr> else op);
                op = (if \<not> js_eq currentScale (op_startScale op) then op\<lparr>op_type := Zoom\<rparr> else op);
                projection = manipulator_move (op_manipulator op)
                               (if op_type op = Zoom then None else Some currentMouse)
                               currentScale (g_projection (c_globe c))
            in c\<lparr>c_globe := (c_globe c)\<lparr>g_projection := projection\<rparr>,
                 c_op := Some op,
                 c_trace := c_trace c @ [Move]\<rparr>))"

text \<open>The handler of \<open>zoomend\<close>. With no operation, reading \<open>op.manipulator\<close> throws.\<close>

definition zoomend :: "host \<Rightarrow> controller \<Rightarrow> js_error + controller" where
  "zoomend h c =
     (case c_op c of
        None \<Rightarrow> Inl (TypeError ''op is null'')
      | Some op \<Rightarrow>
          (let projection = manipulator_end (op_manipulator op) (g_projection (c_globe c));
               c = c\<lparr>c_globe := (c_globe c)\<lparr>g_projection := projection\<rparr>\<rparr>;
               c = (if op_type op = Click
                    then c\<lparr>c_trace := c_trace c @ [ClickAt (op_startMouse op)
                                        (h_invert h projection (op_startMouse op))]\<rparr>
                    else if op_type op \<noteq> Spurious
                    then c\<lparr>c_trace := c_trace c @ [SignalEnd]\<rparr>
                    else c)
           in Inr (c\<lparr>c_op := None\<rparr>)))"

text \<open>
  One interaction: \<open>zoomstart\<close> at pointer-down, a \<open>zoom\<close> event for each pair of a pointer
  position and a scale, and \<open>zoomend\<close> at pointer-up. \<open>gesture_type\<close> is the type of the
  operation that \<open>zoomend\<close> finds.
\<close>

definition zoom_events :: "host \<Rightarrow> controller \<Rightarrow> (point \<times> jsnum) list \<Rightarrow> controller" where
  "zoom_events h c events = foldl (\<lambda>c e. zoom h c (fst e) (snd e)) c events"

definition gesture_type :: "host \<Rightarrow> controller \<Rightarrow> point \<Rightarrow> (point \<times> jsnum) list \<Rightarrow> gesture option" where
  "gesture_type h c startMouse events =
     map_option op_type (c_op (zoom_events h (zoomstart c startMouse) events))"

section \<open>A host, a globe and grids to evaluate the model on\<close>

text \<open>
  The number conversions of the example host read and write plain decimal literals: an
  optional sign, digits, and an optional fraction. That is the form of the strings that
  \<open>toFixed\<close> and the conversion of an integer produce.
\<close>

definition digit_char :: "nat \<Rightarrow> char" where
  "digit_char n = ''0123456789'' ! n"

fun show_nat :: "nat \<Rightarrow> string" where
  "show_nat n = (if n < 10 then [digit_char n] else show_nat (n div 10) @ [digit_char (n mod 10)])"

declare show_nat.simps [simp del]

definition digit_value :: "char \<Rightarrow> nat option" where
  "digit_value c = map_of (zip ''0123456789'' [0, 1, 2, 3, 4, 5, 6, 7, 8, 9]) c"

definition is_digit :: "char \<Rightarrow> bool" where
  "is_digit c = (digit_value c \<noteq> None)"

fun read_digits :: "nat \<Rightarrow> string \<Rightarrow> nat option" where
  "read_digits a [] = Some a"
| "read_digits a (c # cs) =
     (case digit_value c of None \<Rightarrow> None | Some d \<Rightarrow> read_digits (10 * a + d) cs)"

definition read_unsigned :: "string \<Rightarrow> jsnum" where
  "read_unsigned s =
     (let ip = takeWhile (\<lambda>c. c \<noteq> CHR ''.'') s;
          rest = dropWhile (\<lambda>c. c \<noteq> CHR ''.'') s;
          fp = tl rest
      in if s = ''Infinity'' then PInf
         else if ip = [] \<and> fp = [] then NaN
         else (case (read_digits 0 ip, read_digits 0 fp) of
                 (Some i, Some f) \<Rightarrow> Fin (real i + real f / 10 ^ length fp)
               | _ \<Rightarrow> NaN))"

definition example_toNumber :: "string \<Rightarrow> jsnum" where
  "example_toNumber s =
     (case s of
        [] \<Rightarrow> Fin 0
      | c # cs \<Rightarrow> if c = CHR ''-'' then js_neg (read_unsigned cs)
                  else if c = CHR ''+'' then read_unsigned cs
                  else read_unsigned s)"

definition pad_zeros :: "nat \<Rightarrow> string \<Rightarrow> string" where
  "pad_zeros d s = replicate (d - length s) CHR ''0'' @ s"

fun example_toFixed :: "jsnum \<Rightarrow> nat \<Rightarrow> string" where
  "example_toFixed (Fin r) d =
     (let n = nat \<lfloor>\<bar>r\<bar> * 10 ^ d + 1 / 2\<rfloor>
      in (if r < 0 then ''-'' else '''') @ show_nat (n div 10 ^ d) @
         (if d = 0 then '''' else CHR ''.'' # pad_zeros d (show_nat (n mod 10 ^ d))))"
| "example_toFixed PInf d = ''Infinity''"
| "example_toFixed NInf d = ''-Infinity''"
| "example_toFixed NaN d = ''NaN''"

definition example_toString :: "jsnum \<Rightarrow> string" where
  "example_toString a = example_toFixed (math_floor a) 0"

text \<open>
  The example host. Its d3 returns projections with the scale 249.5 and the translation
  \<open>[480, 250]\<close> of a new d3 projection; the outline of the sphere is the disc of the radius
  \<open>scale\<close> around the translation, as under the orthographic projection; the canvas is
  2 by 2 pixels with the pixel \<open>(0, 0)\<close> filled.
\<close>

definition example_d3 :: "d3_geo \<Rightarrow> projection" where
  "example_d3 geo =
     \<lparr>p_geo = geo, p_rotate = (Fin 0, Fin 0, Fin 0), p_scale = Fin (499 / 2),
      p_translate = (Fin 480, Fin 250), p_precision = Fin (sqrt (1 / 2)),
      p_clipAngle = None, p_clipExtent = None\<rparr>"

definition disc_bounds :: "projection \<Rightarrow> box" where
  "disc_bounds p =
     ((js_minus (fst (p_translate p)) (p_scale p), js_minus (snd (p_translate p)) (p_scale p)),
      (js_plus (fst (p_translate p)) (p_scale p), js_plus (snd (p_translate p)) (p_scale p)))"

definition example_invert :: "projection \<Rightarrow> point \<Rightarrow> point option" where
  "example_invert p pt =
     Some (js_divide (js_minus (fst pt) (fst (p_translate p))) (p_scale p),
           js_divide (js_minus (snd (p_translate p)) (snd pt)) (p_scale p))"

definition example_distance :: "point \<Rightarrow> point \<Rightarrow> jsnum" where
  "example_distance a b =
     (case (a, b) of
        ((Fin ax, Fin ay), (Fin bx, Fin by)) \<Rightarrow> Fin (sqrt ((bx - ax)\<^sup>2 + (by - ay)\<^sup>2))
      | _ \<Rightarrow> NaN)"

definition example_floorMod :: "jsnum \<Rightarrow> jsnum \<Rightarrow> jsnum" where
  "example_floorMod a n = js_minus a (js_times n (math_floor (js_divide a n)))"

definition example_host :: host where
  "example_host =
     \<lparr>h_d3 = example_d3,
      h_sphereBounds = disc_bounds,
      h_invert = example_invert,
      h_rasterize = (\<lambda>p i. if 0 \<le> i \<and> i < 16 then Some (if i = 0 \<or> i = 3 then 255 else 0) else None),
      h_timezoneOffset = Fin (- 60),
      h_floorMod = example_floorMod,
      h_distance = example_distance,
      h_distortion = (\<lambda>p l f x y. (Fin 2, Fin 0, Fin 0, Fin (- 2))),
      h_random = (\<lambda>k lo hi. lo),
      h_toNumber = example_toNumber,
      h_toFixed = example_toFixed,
      h_toString = example_toString,
      h_view = \<lparr>v_width = 2, v_height = 2\<rparr>\<rparr>"

text \<open>The orthographic globe of the example host as it is built, and the same globe with
  the scale 1 around the point \<open>[1, 1]\<close>, whose disc covers the 2 by 2 view.\<close>

definition example_globe :: globe where
  "example_globe = orthographic example_host (h_view example_host)"

definition small_globe :: globe where
  "small_globe =
     example_globe\<lparr>g_projection :=
       (g_projection example_globe)\<lparr>p_scale := Fin 1, p_translate := (Fin 1, Fin 1)\<rparr>\<rparr>"

text \<open>Grids with the wind \<open>[1, 0, 1]\<close> everywhere and no overlay of their own.\<close>

definition example_grids :: grids where
  "example_grids =
     \<lparr>g_interpolate = (\<lambda>l f. Some (Fin 1, Fin 0, Some (Fin 1))),
      g_velocityScale = Fin (1 / 2),
      g_overlayInterpolate = (\<lambda>l f. None),
      g_gradient = (\<lambda>s a. (255, 255, 255, a)),
      g_hasDistinctOverlay = False\<rparr>"

text \<open>The example host with the pixel \<open>(1, 1)\<close> of the canvas filled instead of \<open>(0, 0)\<close>,
  and grids that have no wind anywhere.\<close>

definition corner_host :: host where
  "corner_host =
     example_host\<lparr>h_rasterize :=
       (\<lambda>p i. if 0 \<le> i \<and> i < 16 then Some (if i = 12 \<or> i = 15 then 255 else 0) else None)\<rparr>"

definition still_grids :: grids where
  "still_grids = example_grids\<lparr>g_interpolate := (\<lambda>l f. None)\<rparr>"

text \<open>The example grids with an overlay grid of its own, which has no value anywhere: the
  overlay stays transparent.\<close>

definition overlay_grids :: grids where
  "overlay_grids = example_grids\<lparr>g_hasDistinctOverlay := True\<rparr>"

text \<open>A controller with no operation going on, a view of 40 by 40 pixels, and the example
  globe after \<open>orientation('', view)\<close> for that view.\<close>

definition idle_controller :: controller where
  "idle_controller = \<lparr>c_globe = example_globe, c_op = None, c_trace = []\<rparr>"




chapter \<open>Properties\<close>

section \<open>Bounds\<close>

lemma ensureNumber_cases:
  "ensureNumber a fb = (if a = NaN then fb else a)"
  by (cases a) (simp_all add: ensureNumber_def)

lemma width_le_view:
  assumes "c \<noteq> NaN" and "f \<noteq> NaN"
  shows "js_le (js_plus (js_minus (math_min c (js_minus (Fin w) (Fin 1))) (math_max f (Fin 0))) (Fin 1)) (Fin w)"
  using assms by (cases c; cases f) (auto simp: js_minus_def)

lemma width_nonneg_iff:
  assumes "c \<noteq> NaN" and "f \<noteq> NaN"
  shows "js_le (Fin 0) (js_plus (js_minus (math_min c (js_minus (Fin w) (Fin 1))) (math_max f (Fin 0))) (Fin 1))
   \<longleftrightarrow> js_le (math_max f (Fin 0)) (js_plus (math_min c (js_minus (Fin w) (Fin 1))) (Fin 1))"
  using assms by (cases c; cases f) (auto simp: js_minus_def)

lemma floor_ensure_not_NaN: "math_floor (ensureNumber a (Fin r)) \<noteq> NaN"
  by (cases a) (simp_all add: ensureNumber_def)

lemma ceil_ensure_not_NaN: "math_ceil (ensureNumber a (Fin r)) \<noteq> NaN"
  by (cases a) (simp_all add: ensureNumber_def)

text \<open>
  Claim C1, as the code has it. For every globe and every view (of integer pixel
  dimensions) the result of \<open>bounds(view)\<close> has \<open>width = xMax - x + 1\<close> and
  \<open>height = yMax - y + 1\<close>, with \<open>width \<le> view.width\<close> and \<open>height \<le> view.height\<close>. The
  width is at least 0 exactly when \<open>x \<le> xMax + 1\<close>, and the height exactly when
  \<open>y \<le> yMax + 1\<close>: the lower corner is clamped from below only and the upper corner from
  above only, so a box that lies beyond the view gives a negative extent. A component of
  the box that is NaN falls back to 0 (lower corner) or to the extent of the view (upper
  corner) before clamping; an infinite component is kept.
\<close>

theorem bounds_within_view:
  "let bx = h_sphereBounds h (g_projection g);
       r = bounds h g vw
   in b_x r = math_max (math_floor (if fst (fst bx) = NaN then Fin 0 else fst (fst bx))) (Fin 0)
    \<and> b_y r = math_max (math_floor (if snd (fst bx) = NaN then Fin 0 else snd (fst bx))) (Fin 0)
    \<and> b_xMax r = math_min (math_ceil (if fst (snd bx) = NaN then Fin (of_int (v_width vw)) else fst (snd bx)))
                    (Fin (of_int (v_width vw) - 1))
    \<and> b_yMax r = math_min (math_ceil (if snd (snd bx) = NaN then Fin (of_int (v_height vw)) else snd (snd bx)))
                    (Fin (of_int (v_height vw) - 1))
    \<and> b_width r = js_plus (js_minus (b_xMax r) (b_x r)) (Fin 1)
    \<and> b_height r = js_plus (js_minus (b_yMax r) (b_y r)) (Fin 1)
    \<and> js_le (b_width r) (Fin (of_int (v_width vw)))
    \<and> js_le (b_height r) (Fin (of_int (v_height vw)))
    \<and> js_le (Fin 0) (b_width r) = js_le (b_x r) (js_plus (b_xMax r) (Fin 1))
    \<and> js_le (Fin 0) (b_height r) = js_le (b_y r) (js_plus (b_yMax r) (Fin 1))"
proof -
  define bx where "bx = h_sphereBounds h (g_projection g)"
  define r where "r = bounds h g vw"
  have x: "b_x r = math_max (math_floor (ensureNumber (fst (fst bx)) (Fin 0))) (Fin 0)"
    and y: "b_y r = math_max (math_floor (ensureNumber (snd (fst bx)) (Fin 0))) (Fin 0)"
    and xMax: "b_xMax r = math_min (math_ceil (ensureNumber (fst (snd bx)) (Fin (of_int (v_width vw)))))
                 (js_minus (Fin (of_int (v_width vw))) (Fin 1))"
    and yMax: "b_yMax r = math_min (math_ceil (ensureNumber (snd (snd bx)) (Fin (of_int (v_height vw)))))
                 (js_minus (Fin (of_int (v_height vw))) (Fin 1))"
    and w: "b_width r = js_plus (js_minus (b_xMax r) (b_x r)) (Fin 1)"
    and ht: "b_height r = js_plus (js_minus (b_yMax r) (b_y r)) (Fin 1)"
    by (simp_all add: r_def bx_def bounds_def clampedBounds_def Let_def)
  have wle: "js_le (b_width r) (Fin (of_int (v_width vw)))"
    unfolding w unfolding x xMax
    by (rule width_le_view[OF ceil_ensure_not_NaN floor_ensure_not_NaN])
  have hle: "js_le (b_height r) (Fin (of_int (v_height vw)))"
    unfolding ht unfolding y yMax
    by (rule width_le_view[OF ceil_ensure_not_NaN floor_ensure_not_NaN])
  have w0: "js_le (Fin 0) (b_width r) = js_le (b_x r) (js_plus (b_xMax r) (Fin 1))"
    unfolding w unfolding x xMax
    by (rule width_nonneg_iff[OF ceil_ensure_not_NaN floor_ensure_not_NaN])
  have h0: "js_le (Fin 0) (b_height r) = js_le (b_y r) (js_plus (b_yMax r) (Fin 1))"
    unfolding ht unfolding y yMax
    by (rule width_nonneg_iff[OF ceil_ensure_not_NaN floor_ensure_not_NaN])
  have x': "b_x r = math_max (math_floor (if fst (fst bx) = NaN then Fin 0 else fst (fst bx))) (Fin 0)"
    and y': "b_y r = math_max (math_floor (if snd (fst bx) = NaN then Fin 0 else snd (fst bx))) (Fin 0)"
    and xMax': "b_xMax r = math_min (math_ceil (if fst (snd bx) = NaN then Fin (of_int (v_width vw)) else fst (snd bx)))
                    (Fin (of_int (v_width vw) - 1))"
    and yMax': "b_yMax r = math_min (math_ceil (if snd (snd bx) = NaN then Fin (of_int (v_height vw)) else snd (snd bx)))
                    (Fin (of_int (v_height vw) - 1))"
    by (simp_all add: x y xMax yMax ensureNumber_cases js_minus_def)
  show ?thesis
    unfolding Let_def bx_def[symmetric] r_def[symmetric]
    using x' y' xMax' yMax' w ht wle hle w0 h0 by blast
qed

text \<open>
  Claim C1 as stated fails: the orthographic globe as it is built (scale 249.5 around
  \<open>[480, 250]\<close>, so the outline of the sphere spans \<open>230.5 .. 729.5\<close> horizontally) in a
  view 200 pixels wide has \<open>x = 230\<close>, \<open>xMax = 199\<close> and the width \<open>-30\<close>. And for the box
  \<open>[[Infinity, Infinity], [-Infinity, -Infinity]]\<close>, which d3 gives for an outline with no
  points, the infinite components do not fall back: \<open>x\<close> is \<open>Infinity\<close>, \<open>xMax\<close> is
  \<open>-Infinity\<close> and the width is \<open>-Infinity\<close>.
\<close>

theorem bounds_negative_width:
  "b_width (bounds example_host example_globe \<lparr>v_width = 200, v_height = 600\<rparr>) = Fin (- 30)
   \<and> \<not> js_le (Fin 0) (b_width (bounds example_host example_globe \<lparr>v_width = 200, v_height = 600\<rparr>))
   \<and> bounds (example_host\<lparr>h_sphereBounds := (\<lambda>p. ((PInf, PInf), (NInf, NInf)))\<rparr>) example_globe
         \<lparr>v_width = 200, v_height = 600\<rparr>
       = \<lparr>b_x = PInf, b_y = PInf, b_xMax = NInf, b_yMax = NInf, b_width = NInf, b_height = NInf\<rparr>"
  by (simp add: bounds_def clampedBounds_def ensureNumber_def js_minus_def Let_def
      example_globe_def example_host_def orthographic_def newGlobe_def disc_bounds_def
      example_d3_def d3_clipAngle_def d3_precision_def d3_rotate2_def)

section \<open>Distortion\<close>

text \<open>
  Claim C8. \<open>distort\<close> returns the wind vector it was given with the elements 0 and 1
  replaced: for a wind vector \<open>[u, v, m]\<close> the new elements are the two components of the
  scaled vector \<open>(u\<cdot>scale, v\<cdot>scale)\<close> multiplied through the 2\<times>2 map that
  \<open>utils.distortion\<close> returns for the projection at the point.
\<close>

theorem distort_is_matrix_product:
  "distort h projection l f x y scale (u, v, m) =
     (let w = mat2_apply (distortion_map (h_distortion h projection l f x y))
                (js_times u scale, js_times v scale)
      in (fst w, snd w, m))"
  by (simp add: distort_def mat2_apply_def distortion_map_def Let_def)

text \<open>
  Claim C10. \<open>distort\<close> leaves the third element of the wind vector, the magnitude, as it
  was: only the elements 0 and 1 are assigned to.
\<close>

theorem distort_keeps_magnitude:
  "snd (snd (distort h projection l f x y scale wind)) = snd (snd wind)"
  by (simp add: distort_def Let_def)

section \<open>Lookup in a field\<close>

text \<open>
  Claim C9. After \<open>release()\<close> the lookup \<open>field(x, y)\<close> returns \<open>NULL_WIND_VECTOR\<close>, the
  vector that stands for a point outside the boundary, for all numbers \<open>x\<close> and \<open>y\<close>
  (infinite ones and NaN too). No path of the lookup throws: the column is only indexed
  when it is there.
\<close>

theorem lookup_after_release:
  "lookup (release fld) x y = NULL_WIND_VECTOR"
  by (cases "math_round x") (simp_all add: lookup_def release_def)

section \<open>Building a globe\<close>

text \<open>A name that is not in the registry gives a promise rejected with the message
  \<open>Unknown projection: \<close> and the name; no builder runs.\<close>

lemma buildGlobe_unknown_rejected:
  assumes "projectionName \<notin> set (map fst globes)"
  shows "buildGlobe h projectionName = Inr (Rejected (''Unknown projection: '' @ projectionName))"
proof -
  from assms have "map_of globes projectionName = None"
    by (simp add: map_of_eq_None_iff)
  then show ?thesis by (simp add: buildGlobe_def)
qed

lemma buildGlobe_unknown_example:
  "buildGlobe h ''mercator'' = Inr (Rejected ''Unknown projection: mercator'')"
  using buildGlobe_unknown_rejected[of "''mercator''" h] by (simp add: globes_def)

text \<open>
  Claim C5, second half, on the code: for each of the eight registered names the builder
  returns its globe and \<open>buildGlobe\<close> passes that object to the \<open>Promise\<close> constructor as
  the executor. An object is not callable, so the constructor throws a TypeError and no
  globe is produced.
\<close>

theorem buildGlobe_registered_throws:
  "map (buildGlobe h) (map fst globes) =
     replicate 8 (Inl (TypeError ''Promise resolver is not a function''))"
  by (simp add: buildGlobe_def globes_def numeral_eq_Suc)

section \<open>The sweep of the field\<close>

text \<open>Writing the colour of one pixel of the mask leaves the visibility of every other
  pixel of the same width range as it was.\<close>

lemma data_set_other: "j \<noteq> i \<Longrightarrow> data_set d i v j = d j"
  by (simp add: data_set_def)

lemma pixel_index_inj:
  fixes w :: int
  assumes "0 \<le> px" "px < w" "0 \<le> qx" "qx < w" "py * w + px = qy * w + qx"
  shows "px = qx \<and> py = qy"
proof -
  have "(py - qy) * w = qx - px" using assms(5) by (simp add: algebra_simps)
  moreover have "\<bar>qx - px\<bar> < w" using assms by linarith
  ultimately have "\<bar>(py - qy) * w\<bar> < w" by simp
  then have lt: "\<bar>py - qy\<bar> * w < w" using assms by (simp add: abs_mult)
  have "py = qy"
  proof (rule ccontr)
    assume "py \<noteq> qy"
    then have "1 \<le> \<bar>py - qy\<bar>" by simp
    then have "1 * w \<le> \<bar>py - qy\<bar> * w"
      using assms by (intro mult_right_mono) auto
    with lt show False by simp
  qed
  with assms(5) show ?thesis by simp
qed

lemma m_width_mask_set [simp]: "m_width (mask_set m x y c) = m_width m"
  by (simp add: mask_set_def Let_def)

lemma mask_set_data_other:
  assumes "i = (qy * m_width m + qx) * 4" "j \<noteq> i" "j \<noteq> i + 1" "j \<noteq> i + 2" "j \<noteq> i + 3"
  shows "m_data (mask_set m qx qy c) j = m_data m j"
proof -
  have "m_data (mask_set m qx qy c) =
      data_set (data_set (data_set (data_set (m_data m) i (fst c))
              (i + 1) (fst (snd c))) (i + 2) (fst (snd (snd c)))) (i + 3) (snd (snd (snd c)))"
    unfolding mask_set_def Let_def assms(1) by simp
  then show ?thesis using assms(2-5) by (simp add: data_set_other)
qed

lemma isVisible_alt:
  "isVisible m x y = (case m_data m ((y * m_width m + x) * 4 + 3) of None \<Rightarrow> False | Some a \<Rightarrow> 0 < a)"
  by (simp add: isVisible_def Let_def)

lemma isVisible_mask_set:
  assumes "0 \<le> px" "px < m_width m" "0 \<le> qx" "qx < m_width m" "px \<noteq> qx \<or> py \<noteq> qy"
  shows "isVisible (mask_set m qx qy c) px py = isVisible m px py"
proof -
  have ne: "py * m_width m + px \<noteq> qy * m_width m + qx"
    using pixel_index_inj[OF assms(1-4)] assms(5) by blast
  define i where "i = (qy * m_width m + qx) * 4"
  define j where "j = (py * m_width m + px) * 4 + 3"
  have "j \<noteq> i" "j \<noteq> i + 1" "j \<noteq> i + 2" "j \<noteq> i + 3"
    using ne unfolding i_def j_def by presburger+
  then have "m_data (mask_set m qx qy c) j = m_data m j"
    by (rule mask_set_data_other[OF i_def])
  then show ?thesis
    unfolding isVisible_alt m_width_mask_set j_def[symmetric] by (simp only:)
qed

lemma isVisible_block_set:
  assumes "0 \<le> x" "x + 1 < m_width m" "0 \<le> px" "px < m_width m"
    and "\<not> ((px = x \<or> px = x + 1) \<and> (py = y \<or> py = y + 1))"
  shows "isVisible (mask_set (mask_set (mask_set (mask_set m x y c) (x + 1) y c) x (y + 1) c) (x + 1) (y + 1) c) px py
       = isVisible m px py"
proof -
  have ne: "px \<noteq> x \<or> py \<noteq> y" "px \<noteq> x + 1 \<or> py \<noteq> y"
    "px \<noteq> x \<or> py \<noteq> y + 1" "px \<noteq> x + 1 \<or> py \<noteq> y + 1"
    using assms(5) by auto
  have x1: "0 \<le> x + 1" and x0: "x < m_width m" using assms(1,2) by auto
  show ?thesis
    using assms(1-4) x0 x1 ne by (simp add: isVisible_mask_set)
qed

lemma block_origin_step: "block_origin (y + 2) k = block_origin y k"
proof -
  have "(k - (y + 2)) mod 2 = (k - y) mod 2" by presburger
  then show ?thesis by (simp add: block_origin_def)
qed

lemma block_origin_bounds: "block_origin y k \<le> k \<and> k \<le> block_origin y k + 1"
  unfolding block_origin_def by presburger

lemma block_origin_low: "y \<le> k \<Longrightarrow> k \<le> y + 1 \<Longrightarrow> block_origin y k = y"
  unfolding block_origin_def by presburger

lemma block_origin_high: "y + 2 \<le> k \<Longrightarrow> y + 2 \<le> block_origin y k"
  unfolding block_origin_def by presburger

lemma block_origin_idem: "block_origin y (block_origin y k) = block_origin y k"
  unfolding block_origin_def by presburger

lemma column_loop_spec:
  assumes "0 \<le> x" and "x + 1 < m_width (fst st)"
  shows "m_width (fst (column_loop h projection gr vs bnds x y st)) = m_width (fst st)
    \<and> (\<forall>px py. 0 \<le> px \<and> px < m_width (fst st) \<and> ((px \<noteq> x \<and> px \<noteq> x + 1) \<or> py < y) \<longrightarrow>
          isVisible (fst (column_loop h projection gr vs bnds x y st)) px py = isVisible (fst st) px py)
    \<and> (\<forall>k. snd (column_loop h projection gr vs bnds x y st) k =
          (if y \<le> k \<and> block_origin y k \<le> b_yMax bnds \<and> isVisible (fst st) x (block_origin y k)
           then Some (or_HOLE_VECTOR (snd (interpolatePoint h projection gr vs x (block_origin y k))))
           else snd st k))"
  using assms
proof (induction h projection gr vs bnds x y st rule: column_loop.induct)
  case (1 h projection gr vs bnds x y st)
  show ?case
  proof (cases "y \<le> b_yMax bnds")
    case False
    then have eq: "column_loop h projection gr vs bnds x y st = st"
      by (subst column_loop.simps) simp
    have "\<not> (y \<le> k \<and> block_origin y k \<le> b_yMax bnds)" for k
      using False block_origin_high[of y k] block_origin_low[of y k] by (cases "y + 2 \<le> k") auto
    then show ?thesis unfolding eq by auto
  next
    case True
    define w where "w = or_HOLE_VECTOR (snd (interpolatePoint h projection gr vs x y))"
    define color where "color = fst (interpolatePoint h projection gr vs x y)"
    define st1 where "st1 =
      (if isVisible (fst st) x y then
         (let cw = interpolatePoint h projection gr vs x y;
              color = fst cw;
              w = or_HOLE_VECTOR (snd cw)
          in (mask_set (mask_set (mask_set (mask_set (fst st) x y color)
                (x + 1) y color) x (y + 1) color) (x + 1) (y + 1) color,
              (snd st)(y \<mapsto> w, y + 1 \<mapsto> w)))
       else st)"
    have eq: "column_loop h projection gr vs bnds x y st = column_loop h projection gr vs bnds x (y + 2) st1"
      using True by (subst column_loop.simps) (simp add: st1_def)
    have w1: "m_width (fst st1) = m_width (fst st)"
      by (simp add: st1_def Let_def)
    have vis1: "isVisible (fst st1) px py = isVisible (fst st) px py"
      if "0 \<le> px" "px < m_width (fst st)" "\<not> ((px = x \<or> px = x + 1) \<and> (py = y \<or> py = y + 1))" for px py
      using that isVisible_block_set[OF "1.prems"(1) "1.prems"(2) that(1) that(2) that(3)]
      by (simp add: st1_def Let_def)
    have col1: "snd st1 k = (if isVisible (fst st) x y \<and> (k = y \<or> k = y + 1) then Some w else snd st k)" for k
      by (simp add: st1_def Let_def w_def)
    have IH: "m_width (fst (column_loop h projection gr vs bnds x (y + 2) st1)) = m_width (fst st1)
      \<and> (\<forall>px py. 0 \<le> px \<and> px < m_width (fst st1) \<and> ((px \<noteq> x \<and> px \<noteq> x + 1) \<or> py < y + 2) \<longrightarrow>
          isVisible (fst (column_loop h projection gr vs bnds x (y + 2) st1)) px py = isVisible (fst st1) px py)
      \<and> (\<forall>k. snd (column_loop h projection gr vs bnds x (y + 2) st1) k =
          (if y + 2 \<le> k \<and> block_origin (y + 2) k \<le> b_yMax bnds \<and> isVisible (fst st1) x (block_origin (y + 2) k)
           then Some (or_HOLE_VECTOR (snd (interpolatePoint h projection gr vs x (block_origin (y + 2) k))))
           else snd st1 k))"
      using "1.IH"[OF True, folded st1_def] "1.prems" w1 by simp
    have A: "m_width (fst (column_loop h projection gr vs bnds x y st)) = m_width (fst st)"
      using IH w1 eq by simp
    have B: "isVisible (fst (column_loop h projection gr vs bnds x y st)) px py = isVisible (fst st) px py"
      if "0 \<le> px" "px < m_width (fst st)" "(px \<noteq> x \<and> px \<noteq> x + 1) \<or> py < y" for px py
    proof -
      have "isVisible (fst (column_loop h projection gr vs bnds x (y + 2) st1)) px py = isVisible (fst st1) px py"
        using IH that w1 by auto
      also have "\<dots> = isVisible (fst st) px py"
        using that by (intro vis1) auto
      finally show ?thesis using eq by simp
    qed
    have C: "snd (column_loop h projection gr vs bnds x y st) k =
          (if y \<le> k \<and> block_origin y k \<le> b_yMax bnds \<and> isVisible (fst st) x (block_origin y k)
           then Some (or_HOLE_VECTOR (snd (interpolatePoint h projection gr vs x (block_origin y k))))
           else snd st k)" for k
    proof -
      have x0: "x < m_width (fst st)" using "1.prems" by simp
      consider "k < y" | "y \<le> k" "k \<le> y + 1" | "y + 2 \<le> k" by linarith
      then show ?thesis
      proof cases
        case 1
        then show ?thesis using IH eq col1 by simp
      next
        case 2
        then have bo: "block_origin y k = y" by (rule block_origin_low)
        from 2 have "k = y \<or> k = y + 1" by auto
        then show ?thesis using IH eq col1 bo True 2 by (auto simp: w_def)
      next
        case 3
        have bo: "y + 2 \<le> block_origin y k" using 3 by (rule block_origin_high)
        have "isVisible (fst st1) x (block_origin y k) = isVisible (fst st) x (block_origin y k)"
          using bo "1.prems" x0 by (intro vis1) auto
        moreover have "snd st1 k = snd st k" using 3 col1 by simp
        ultimately show ?thesis using IH eq 3 by (simp add: block_origin_step)
      qed
    qed
    from A B C show ?thesis by blast
  qed
qed

lemma interpolateColumn_spec:
  assumes "0 \<le> x" and "x + 1 < m_width (fst st)"
  shows "m_width (fst (interpolateColumn h projection gr vs bnds x st)) = m_width (fst st)"
    and "\<And>px py. 0 \<le> px \<Longrightarrow> px < m_width (fst st) \<Longrightarrow> px \<noteq> x \<Longrightarrow> px \<noteq> x + 1 \<Longrightarrow>
          isVisible (fst (interpolateColumn h projection gr vs bnds x st)) px py = isVisible (fst st) px py"
    and "\<And>j k. Option.bind (snd (interpolateColumn h projection gr vs bnds x st) j) (\<lambda>c. c k) =
          (if j = x \<or> j = x + 1 then
             (if b_y bnds \<le> k \<and> block_origin (b_y bnds) k \<le> b_yMax bnds
                 \<and> isVisible (fst st) x (block_origin (b_y bnds) k)
              then Some (or_HOLE_VECTOR (snd (interpolatePoint h projection gr vs x (block_origin (b_y bnds) k))))
              else None)
           else Option.bind (snd st j) (\<lambda>c. c k))"
proof -
  define mc where "mc = column_loop h projection gr vs bnds x (b_y bnds) (fst st, Map.empty)"
  have ic: "interpolateColumn h projection gr vs bnds x st = (fst mc, (snd st)(x \<mapsto> snd mc, x + 1 \<mapsto> snd mc))"
    by (simp add: interpolateColumn_def mc_def Let_def)
  have spec: "m_width (fst mc) = m_width (fst st)
    \<and> (\<forall>px py. 0 \<le> px \<and> px < m_width (fst st) \<and> ((px \<noteq> x \<and> px \<noteq> x + 1) \<or> py < b_y bnds) \<longrightarrow>
          isVisible (fst mc) px py = isVisible (fst st) px py)
    \<and> (\<forall>k. snd mc k =
          (if b_y bnds \<le> k \<and> block_origin (b_y bnds) k \<le> b_yMax bnds \<and> isVisible (fst st) x (block_origin (b_y bnds) k)
           then Some (or_HOLE_VECTOR (snd (interpolatePoint h projection gr vs x (block_origin (b_y bnds) k))))
           else None))"
    using column_loop_spec[where x = x and st = "(fst st, Map.empty)" and h = h
        and projection = projection and gr = gr and vs = vs and bnds = bnds and y = "b_y bnds"] assms
    unfolding mc_def by simp
  show "m_width (fst (interpolateColumn h projection gr vs bnds x st)) = m_width (fst st)"
    using spec ic by simp
  show "isVisible (fst (interpolateColumn h projection gr vs bnds x st)) px py = isVisible (fst st) px py"
    if "0 \<le> px" "px < m_width (fst st)" "px \<noteq> x" "px \<noteq> x + 1" for px py
    using spec ic that by simp
  show "Option.bind (snd (interpolateColumn h projection gr vs bnds x st) j) (\<lambda>c. c k) =
          (if j = x \<or> j = x + 1 then
             (if b_y bnds \<le> k \<and> block_origin (b_y bnds) k \<le> b_yMax bnds
                 \<and> isVisible (fst st) x (block_origin (b_y bnds) k)
              then Some (or_HOLE_VECTOR (snd (interpolatePoint h projection gr vs x (block_origin (b_y bnds) k))))
              else None)
           else Option.bind (snd st j) (\<lambda>c. c k))" for j k
    using spec ic by simp
qed

lemma batchInterpolate_spec:
  assumes "0 \<le> x" and "b_xMax bnds \<le> m_width (fst st) - 1"
  shows "Option.bind (snd (batchInterpolate h projection gr vs bnds x st) j) (\<lambda>c. c k) =
          (if x \<le> j \<and> block_origin x j < b_xMax bnds then
             (if b_y bnds \<le> k \<and> block_origin (b_y bnds) k \<le> b_yMax bnds
                 \<and> isVisible (fst st) (block_origin x j) (block_origin (b_y bnds) k)
              then Some (or_HOLE_VECTOR (snd (interpolatePoint h projection gr vs (block_origin x j)
                           (block_origin (b_y bnds) k))))
              else None)
           else Option.bind (snd st j) (\<lambda>c. c k))"
  using assms
proof (induction h projection gr vs bnds x st rule: batchInterpolate.induct)
  case (1 h projection gr vs bnds x st)
  show ?case
  proof (cases "x < b_xMax bnds")
    case False
    then have eq: "batchInterpolate h projection gr vs bnds x st = st"
      by (subst batchInterpolate.simps) simp
    have "\<not> (x \<le> j \<and> block_origin x j < b_xMax bnds)"
      using False block_origin_high[of x j] block_origin_low[of x j] by (cases "x + 2 \<le> j") auto
    then show ?thesis unfolding eq by auto
  next
    case True
    define st1 where "st1 = interpolateColumn h projection gr vs bnds x st"
    have eq: "batchInterpolate h projection gr vs bnds x st = batchInterpolate h projection gr vs bnds (x + 2) st1"
      using True by (subst batchInterpolate.simps) (simp add: st1_def)
    have x1: "x + 1 < m_width (fst st)" using True "1.prems" by simp
    note ic = interpolateColumn_spec[OF "1.prems"(1) x1, where h = h and projection = projection
        and gr = gr and vs = vs and bnds = bnds, folded st1_def]
    have IH: "Option.bind (snd (batchInterpolate h projection gr vs bnds (x + 2) st1) j) (\<lambda>c. c k) =
          (if x + 2 \<le> j \<and> block_origin (x + 2) j < b_xMax bnds then
             (if b_y bnds \<le> k \<and> block_origin (b_y bnds) k \<le> b_yMax bnds
                 \<and> isVisible (fst st1) (block_origin (x + 2) j) (block_origin (b_y bnds) k)
              then Some (or_HOLE_VECTOR (snd (interpolatePoint h projection gr vs (block_origin (x + 2) j)
                           (block_origin (b_y bnds) k))))
              else None)
           else Option.bind (snd st1 j) (\<lambda>c. c k))"
      using "1.IH"[OF True, folded st1_def] "1.prems" ic(1) by simp
    consider "j < x" | "x \<le> j" "j \<le> x + 1" | "x + 2 \<le> j" by linarith
    then show ?thesis
    proof cases
      case 1
      then show ?thesis using IH eq ic(3)[of j k] by simp
    next
      case 2
      then have bo: "block_origin x j = x" by (rule block_origin_low)
      from 2 have "j = x \<or> j = x + 1" by auto
      then show ?thesis using IH eq ic(3)[of j k] bo True 2 by auto
    next
      case 3
      have bo: "x + 2 \<le> block_origin x j" using 3 by (rule block_origin_high)
      show ?thesis
      proof (cases "block_origin x j < b_xMax bnds")
        case False
        then show ?thesis using IH eq ic(3)[of j k] 3 by (simp add: block_origin_step)
      next
        case lt: True
        have "isVisible (fst st1) (block_origin x j) py = isVisible (fst st) (block_origin x j) py" for py
          using bo lt "1.prems" by (intro ic(2)) auto
        then show ?thesis using IH eq ic(3)[of j k] 3 lt by (simp add: block_origin_step)
      qed
    qed
  qed
qed

lemma math_round_int: "math_round (Fin (of_int k)) = Fin (of_int k)"
proof -
  have "\<lfloor>real_of_int k + 1 / 2\<rfloor> = k" by linarith
  then show ?thesis by simp
qed

lemma js_index_int: "js_index a (Fin (of_int k)) = a k"
  by simp

lemma lookup_int:
  "lookup fld (Fin (of_int px)) (Fin (of_int py)) =
     (case Option.bind (f_columns fld px) (\<lambda>c. c py) of None \<Rightarrow> NULL_WIND_VECTOR | Some w \<Rightarrow> w)"
  unfolding lookup_def math_round_int js_index_int
  by (cases "f_columns fld px") simp_all

lemma to_int_Some: "to_int a = Some k \<Longrightarrow> a = Fin (of_int k)"
  by (cases a) (auto split: if_splits)

lemma int_bounds_Some:
  assumes "int_bounds b = Some ib"
  shows "b_x b = Fin (of_int (b_x ib))" "b_y b = Fin (of_int (b_y ib))"
    "b_xMax b = Fin (of_int (b_xMax ib))" "b_yMax b = Fin (of_int (b_yMax ib))"
  using assms by (auto simp: int_bounds_def split: option.splits dest: to_int_Some)

lemma math_max_zero_int: "math_max a (Fin 0) = Fin (of_int k) \<Longrightarrow> 0 \<le> k"
  by (cases a) (auto split: if_splits)

lemma math_min_int: "math_min a (Fin (of_int w - 1)) = Fin (of_int k) \<Longrightarrow> k \<le> w - 1"
  by (cases a) (auto split: if_splits)

lemma bounds_int_range:
  assumes "int_bounds (bounds h g vw) = Some ib"
  shows "0 \<le> b_x ib" and "b_xMax ib \<le> v_width vw - 1"
proof -
  note ib = int_bounds_Some[OF assms]
  have "b_x (bounds h g vw) = math_max (math_floor (ensureNumber (fst (fst (h_sphereBounds h (g_projection g)))) (Fin 0))) (Fin 0)"
    by (simp add: bounds_def clampedBounds_def Let_def)
  with ib(1) show "0 \<le> b_x ib" by (metis math_max_zero_int)
  have "b_xMax (bounds h g vw) = math_min (math_ceil (ensureNumber (fst (snd (h_sphereBounds h (g_projection g)))) (Fin (of_int (v_width vw)))))
                   (Fin (of_int (v_width vw) - 1))"
    by (simp add: bounds_def clampedBounds_def Let_def js_minus_def)
  with ib(3) show "b_xMax ib \<le> v_width vw - 1" by (metis math_min_int)
qed

lemma interpolatePoint_wind:
  "snd (interpolatePoint h projection gr vs x y) =
     (case h_invert h projection (Fin (of_int x), Fin (of_int y)) of
        None \<Rightarrow> None
      | Some coord \<Rightarrow>
          if isFinite (fst coord)
          then map_option (distort h projection (fst coord) (snd coord) (Fin (of_int x)) (Fin (of_int y)) vs)
                 (g_interpolate gr (fst coord) (snd coord))
          else None)"
  by (auto simp: interpolatePoint_def Let_def split: option.splits)

lemma or_HOLE_VECTOR_defined:
  "(snd (snd (contents (or_HOLE_VECTOR wind))) \<noteq> None) = (\<exists>w. wind = Some w \<and> snd (snd w) \<noteq> None)"
  by (cases wind) auto

lemma or_HOLE_VECTOR_not_NULL: "or_HOLE_VECTOR wind \<noteq> NULL_WIND_VECTOR"
  by (cases wind) auto

text \<open>The bounds of a globe have integer corners unless one of them is infinite.\<close>

lemma floor_max_cases:
  "(\<exists>k. math_max (math_floor (ensureNumber a (Fin 0))) (Fin 0) = Fin (of_int k))
   \<or> math_max (math_floor (ensureNumber a (Fin 0))) (Fin 0) = PInf"
proof (cases a)
  case (Fin r)
  have "max (0::real) (of_int \<lfloor>r\<rfloor>) = of_int (max 0 \<lfloor>r\<rfloor>)" by simp
  then show ?thesis using Fin
    by (auto simp: ensureNumber_def max_def intro: exI[of _ "\<lfloor>r\<rfloor>"] exI[of _ 0])
next
  case PInf
  then show ?thesis by (simp add: ensureNumber_def)
next
  case NInf
  then show ?thesis by (auto simp: ensureNumber_def intro: exI[of _ 0])
next
  case NaN
  then show ?thesis by (auto simp: ensureNumber_def intro: exI[of _ 0])
qed

lemma ceil_min_cases:
  "(\<exists>k. math_min (math_ceil (ensureNumber a (Fin (of_int w)))) (js_minus (Fin (of_int w)) (Fin 1)) = Fin (of_int k))
   \<or> math_min (math_ceil (ensureNumber a (Fin (of_int w)))) (js_minus (Fin (of_int w)) (Fin 1)) = NInf"
proof (cases a)
  case (Fin r)
  have "real_of_int w - 1 = of_int (w - 1)" by simp
  then show ?thesis using Fin
    by (auto simp: ensureNumber_def js_minus_def intro: exI[of _ "\<lceil>r\<rceil>"] exI[of _ "w - 1"])
next
  case PInf
  have "real_of_int w - 1 = of_int (w - 1)" by simp
  then show ?thesis using PInf by (auto simp: ensureNumber_def js_minus_def intro: exI[of _ "w - 1"])
next
  case NInf
  then show ?thesis by (simp add: ensureNumber_def js_minus_def)
next
  case NaN
  have "real_of_int w - 1 = of_int (w - 1)" by simp
  then show ?thesis using NaN by (auto simp: ensureNumber_def js_minus_def intro: exI[of _ "w - 1"])
qed

lemma to_int_of_int: "to_int (Fin (of_int k)) = Some k"
  by simp

lemma int_bounds_None_iff:
  "int_bounds (bounds h g vw) = None \<longleftrightarrow>
     b_x (bounds h g vw) = PInf \<or> b_y (bounds h g vw) = PInf
     \<or> b_xMax (bounds h g vw) = NInf \<or> b_yMax (bounds h g vw) = NInf"
proof -
  define bx where "bx = h_sphereBounds h (g_projection g)"
  have x: "b_x (bounds h g vw) = math_max (math_floor (ensureNumber (fst (fst bx)) (Fin 0))) (Fin 0)"
    and y: "b_y (bounds h g vw) = math_max (math_floor (ensureNumber (snd (fst bx)) (Fin 0))) (Fin 0)"
    and xMax: "b_xMax (bounds h g vw) = math_min (math_ceil (ensureNumber (fst (snd bx)) (Fin (of_int (v_width vw)))))
                 (js_minus (Fin (of_int (v_width vw))) (Fin 1))"
    and yMax: "b_yMax (bounds h g vw) = math_min (math_ceil (ensureNumber (snd (snd bx)) (Fin (of_int (v_height vw)))))
                 (js_minus (Fin (of_int (v_height vw))) (Fin 1))"
    by (simp_all add: bx_def bounds_def clampedBounds_def Let_def)
  have cx: "(\<exists>k. b_x (bounds h g vw) = Fin (of_int k)) \<or> b_x (bounds h g vw) = PInf"
    unfolding x by (rule floor_max_cases)
  have cy: "(\<exists>k. b_y (bounds h g vw) = Fin (of_int k)) \<or> b_y (bounds h g vw) = PInf"
    unfolding y by (rule floor_max_cases)
  have cxM: "(\<exists>k. b_xMax (bounds h g vw) = Fin (of_int k)) \<or> b_xMax (bounds h g vw) = NInf"
    unfolding xMax by (rule ceil_min_cases)
  have cyM: "(\<exists>k. b_yMax (bounds h g vw) = Fin (of_int k)) \<or> b_yMax (bounds h g vw) = NInf"
    unfolding yMax by (rule ceil_min_cases)
  show ?thesis
    using cx cy cxM cyM
    by (auto simp: int_bounds_def to_int_of_int split: option.splits)
qed

text \<open>
  Claim C2, as the code has it. The lookup at an integer pixel \<open>(px, py)\<close> of a completed
  field is decided by the pixel \<open>(sx, sy)\<close> that the sweep sampled for the 2 by 2 block
  of \<open>(px, py)\<close>, not by \<open>(px, py)\<close> itself. If the sweep does not reach the block, or
  \<open>(sx, sy)\<close> is outside the visible region of the mask as \<open>createMask\<close> made it, the
  lookup returns \<open>NULL_WIND_VECTOR\<close> (outside the boundary). If \<open>(sx, sy)\<close> is visible and
  the inverse projection or the grid gave no vector there, it returns \<open>HOLE_VECTOR\<close>;
  otherwise it returns the distorted vector of \<open>(sx, sy)\<close>. \<open>isDefined\<close> is true exactly
  when that vector was written and its magnitude is not \<open>null\<close>, and \<open>isInsideBoundary\<close>
  exactly when the block was written to. With an infinite corner of the bounds (the only
  case in which the corners are not integers) nothing is written.
\<close>

theorem interpolateField_lookup:
  "let fld = interpolateField h g gr;
       msk = createMask h g;
       bnds = bounds h g (h_view h);
       vs = js_times (b_height bnds) (g_velocityScale gr)
   in case int_bounds bnds of
        None \<Rightarrow> lookup fld (Fin (of_int px)) (Fin (of_int py)) = NULL_WIND_VECTOR
      | Some ib \<Rightarrow>
          (let sx = block_origin (b_x ib) px;
               sy = block_origin (b_y ib) py;
               wind = snd (interpolatePoint h (g_projection g) gr vs sx sy)
           in lookup fld (Fin (of_int px)) (Fin (of_int py)) =
                (if swept ib px py \<and> isVisible msk sx sy then or_HOLE_VECTOR wind
                 else NULL_WIND_VECTOR)
            \<and> isDefined fld (Fin (of_int px)) (Fin (of_int py)) =
                (swept ib px py \<and> isVisible msk sx sy \<and> (\<exists>w. wind = Some w \<and> snd (snd w) \<noteq> None))
            \<and> isInsideBoundary fld (Fin (of_int px)) (Fin (of_int py)) =
                (swept ib px py \<and> isVisible msk sx sy)
            \<and> wind =
                (case h_invert h (g_projection g) (Fin (of_int sx), Fin (of_int sy)) of
                   None \<Rightarrow> None
                 | Some coord \<Rightarrow>
                     if isFinite (fst coord)
                     then map_option
                            (distort h (g_projection g) (fst coord) (snd coord)
                               (Fin (of_int sx)) (Fin (of_int sy)) vs)
                            (g_interpolate gr (fst coord) (snd coord))
                     else None))"
proof (cases "int_bounds (bounds h g (h_view h))")
  case None
  then have "f_columns (interpolateField h g gr) = Map.empty"
    by (simp add: interpolateField_def Let_def createField_def)
  then have "lookup (interpolateField h g gr) (Fin (of_int px)) (Fin (of_int py)) = NULL_WIND_VECTOR"
    by (simp add: lookup_int)
  with None show ?thesis by (simp add: Let_def)
next
  case (Some ib)
  define msk where "msk = createMask h g"
  define vs where "vs = js_times (b_height (bounds h g (h_view h))) (g_velocityScale gr)"
  define mc where "mc = batchInterpolate h (g_projection g) gr vs ib (b_x ib) (msk, Map.empty)"
  define sx where "sx = block_origin (b_x ib) px"
  define sy where "sy = block_origin (b_y ib) py"
  define wind where "wind = snd (interpolatePoint h (g_projection g) gr vs sx sy)"
  have cols: "f_columns (interpolateField h g gr) = snd mc"
    using Some by (simp add: interpolateField_def Let_def createField_def mc_def msk_def vs_def)
  have w: "m_width msk = v_width (h_view h)"
    by (simp add: msk_def createMask_def)
  note rng = bounds_int_range[OF Some]
  have "Option.bind (snd mc px) (\<lambda>c. c py) =
          (if b_x ib \<le> px \<and> sx < b_xMax ib then
             (if b_y ib \<le> py \<and> sy \<le> b_yMax ib \<and> isVisible msk sx sy
              then Some (or_HOLE_VECTOR wind) else None)
           else None)"
    unfolding mc_def sx_def sy_def wind_def
    using batchInterpolate_spec[where x = "b_x ib" and bnds = ib and st = "(msk, Map.empty)"
        and h = h and projection = "g_projection g" and gr = gr and vs = vs and j = px and k = py]
      rng w by simp
  then have lk: "lookup (interpolateField h g gr) (Fin (of_int px)) (Fin (of_int py)) =
      (if swept ib px py \<and> isVisible msk sx sy then or_HOLE_VECTOR wind else NULL_WIND_VECTOR)"
    unfolding lookup_int cols by (simp add: swept_def sx_def sy_def)
  have df: "isDefined (interpolateField h g gr) (Fin (of_int px)) (Fin (of_int py)) =
      (swept ib px py \<and> isVisible msk sx sy \<and> (\<exists>w. wind = Some w \<and> snd (snd w) \<noteq> None))"
    unfolding isDefined_def lk using or_HOLE_VECTOR_defined[of wind] by auto
  have ib': "isInsideBoundary (interpolateField h g gr) (Fin (of_int px)) (Fin (of_int py)) =
      (swept ib px py \<and> isVisible msk sx sy)"
    unfolding isInsideBoundary_def lk using or_HOLE_VECTOR_not_NULL[of wind] by auto
  have wd: "wind =
      (case h_invert h (g_projection g) (Fin (of_int sx), Fin (of_int sy)) of
         None \<Rightarrow> None
       | Some coord \<Rightarrow>
           if isFinite (fst coord)
           then map_option
                  (distort h (g_projection g) (fst coord) (snd coord)
                     (Fin (of_int sx)) (Fin (of_int sy)) vs)
                  (g_interpolate gr (fst coord) (snd coord))
           else None)"
    unfolding wind_def by (rule interpolatePoint_wind)
  show ?thesis
    using Some lk df ib' wd
    unfolding Let_def msk_def vs_def sx_def sy_def wind_def
    by (simp only: option.case simp_thms)
qed

text \<open>Evaluation of the sweep on the example inputs.\<close>

lemmas example_defs =
  example_host_def corner_host_def small_globe_def example_globe_def example_grids_def still_grids_def
  overlay_grids_def
  orthographic_def newGlobe_def disc_bounds_def example_d3_def d3_clipAngle_def d3_precision_def
  d3_rotate2_def example_invert_def

lemmas sweep_defs =
  interpolateField_def batchInterpolate.simps interpolateColumn_def column_loop.simps
  interpolatePoint_def distort_def createMask_def isVisible_def createField_def lookup_def
  bounds_def clampedBounds_def ensureNumber_def js_minus_def int_bounds_def Let_def

text \<open>
  Claim C2 as stated fails in its first two parts. On the 2 by 2 canvas with only the
  pixel \<open>(0, 0)\<close> filled, the pixel \<open>(1, 1)\<close> is outside the visible region, both in the
  mask as \<open>createMask\<close> made it and in the overlay of the completed field, and its lookup
  is the vector of \<open>(0, 0)\<close>, not \<open>NULL_WIND_VECTOR\<close>. With only \<open>(1, 1)\<close> filled and a
  grid that has no wind, the pixel \<open>(1, 1)\<close> is visible, before and after the sweep, and
  has no vector, and its lookup is \<open>NULL_WIND_VECTOR\<close>, not \<open>HOLE_VECTOR\<close>: the sampled
  pixel \<open>(0, 0)\<close> of its block is not visible.
\<close>

theorem lookup_not_by_pixel:
  "\<not> isVisible (createMask example_host small_globe) 1 1
   \<and> \<not> isVisible \<lparr>m_width = 2,
          m_data = f_overlay (interpolateField example_host small_globe overlay_grids)\<rparr> 1 1
   \<and> lookup (interpolateField example_host small_globe overlay_grids) (Fin 1) (Fin 1)
       = Wind (Fin 2, Fin 0, Some (Fin 1))
   \<and> Wind (Fin 2, Fin 0, Some (Fin 1)) \<noteq> NULL_WIND_VECTOR
   \<and> isVisible (createMask corner_host small_globe) 1 1
   \<and> isVisible \<lparr>m_width = 2,
          m_data = f_overlay (interpolateField corner_host small_globe still_grids)\<rparr> 1 1
   \<and> g_interpolate still_grids = (\<lambda>l f. None)
   \<and> lookup (interpolateField corner_host small_globe still_grids) (Fin 1) (Fin 1) = NULL_WIND_VECTOR
   \<and> NULL_WIND_VECTOR \<noteq> HOLE_VECTOR"
  by (simp add: sweep_defs example_defs mask_set_def data_set_def OVERLAY_ALPHA_def
      TRANSPARENT_BLACK_def)

section \<open>Random points of a field\<close>

lemma randomize_loop_step:
  "randomize_loop h fld n =
     (if \<not> isDefined fld (fst (draw h fld n)) (snd (draw h fld n)) \<and> n < 30
      then randomize_loop h fld (Suc n) else draw h fld n)"
  by (subst randomize_loop.simps) (simp add: draw_def Let_def)

lemma randomize_loop_skip:
  assumes "\<forall>j. n \<le> j \<and> j < k \<longrightarrow> \<not> isDefined fld (fst (draw h fld j)) (snd (draw h fld j))"
    and "n \<le> k" and "k \<le> 30"
  shows "randomize_loop h fld n = randomize_loop h fld k"
  using assms
proof (induction "k - n" arbitrary: n)
  case 0
  then show ?case by simp
next
  case (Suc d)
  then have "n < k" by simp
  with Suc.prems have nd: "\<not> isDefined fld (fst (draw h fld n)) (snd (draw h fld n))" and "n < 30"
    by auto
  then have "randomize_loop h fld n = randomize_loop h fld (Suc n)"
    by (subst randomize_loop_step) simp
  also have "\<dots> = randomize_loop h fld k"
    using Suc.hyps Suc.prems \<open>n < k\<close> by (intro Suc.hyps(1)) auto
  finally show ?case .
qed

lemma randomize_loop_stop:
  assumes "isDefined fld (fst (draw h fld k)) (snd (draw h fld k)) \<or> k = 30"
  shows "randomize_loop h fld k = draw h fld k"
  using assms by (subst randomize_loop_step) auto

lemma defined_inside:
  "isDefined fld x y \<Longrightarrow> isInsideBoundary fld x y"
  by (auto simp: isDefined_def isInsideBoundary_def)

lemma example_field_defined:
  "isDefined (interpolateField example_host small_globe example_grids) (Fin 0) (Fin 0)"
  by (simp add: isDefined_def sweep_defs example_defs)

lemma example_draw:
  "draw example_host (interpolateField example_host small_globe example_grids) k = (Fin 0, Fin 0)"
  by (simp add: draw_def sweep_defs example_defs)

lemma corner_draw:
  "draw corner_host (interpolateField corner_host small_globe example_grids) k = (Fin 0, Fin 0)"
  by (simp add: draw_def sweep_defs example_defs)

lemma corner_lookup:
  "lookup (interpolateField corner_host small_globe example_grids) (Fin 0) (Fin 0) = NULL_WIND_VECTOR"
  by (simp add: sweep_defs example_defs)

text \<open>
  Claim C3, as the code has it. \<open>randomize\<close> assigns to \<open>x\<close> and \<open>y\<close> of the point the last
  draw it made and leaves the rest of the point alone. If the field is defined at one of
  the first 30 draws, the result is the first such draw, so the field is defined there and
  the point is inside the boundary. If the field is defined at none of the first 30 draws,
  the result is the next draw (number 30, counted from 0), whatever the field has there.
  A result where the field is defined is inside the boundary.
\<close>

theorem randomize_returns_draw:
  "let p = randomize h fld o';
       D = (\<lambda>k. isDefined fld (fst (draw h fld k)) (snd (draw h fld k)))
   in xy.more p = xy.more o'
    \<and> ((\<exists>k<30. D k) \<longrightarrow>
          (\<exists>k<30. D k \<and> (\<forall>j<k. \<not> D j) \<and> (o_x p, o_y p) = draw h fld k)
          \<and> isDefined fld (o_x p) (o_y p) \<and> isInsideBoundary fld (o_x p) (o_y p))
    \<and> ((\<forall>k<30. \<not> D k) \<longrightarrow> (o_x p, o_y p) = draw h fld 30)
    \<and> (isDefined fld (o_x p) (o_y p) \<longrightarrow> isInsideBoundary fld (o_x p) (o_y p))"
proof -
  define D where "D = (\<lambda>k. isDefined fld (fst (draw h fld k)) (snd (draw h fld k)))"
  define p where "p = randomize h fld o'"
  have xy: "(o_x p, o_y p) = randomize_loop h fld 0"
    by (simp add: p_def randomize_def Let_def)
  have more: "xy.more p = xy.more o'"
    by (simp add: p_def randomize_def Let_def)
  have some: "(\<exists>k<30. D k \<and> (\<forall>j<k. \<not> D j) \<and> (o_x p, o_y p) = draw h fld k)
          \<and> isDefined fld (o_x p) (o_y p) \<and> isInsideBoundary fld (o_x p) (o_y p)"
    if ex: "\<exists>k<30. D k"
  proof -
    define k where "k = (LEAST k. k < 30 \<and> D k)"
    from ex have k: "k < 30 \<and> D k"
      unfolding k_def by (rule LeastI_ex)
    have least: "\<not> D j" if "j < k" for j
      using not_less_Least[of j "\<lambda>k. k < 30 \<and> D k"] that k unfolding k_def by auto
    have "randomize_loop h fld 0 = randomize_loop h fld k"
      using least k by (intro randomize_loop_skip) (auto simp: D_def)
    also have "\<dots> = draw h fld k"
      using k by (intro randomize_loop_stop) (auto simp: D_def)
    finally have eq: "(o_x p, o_y p) = draw h fld k" using xy by simp
    then have "o_x p = fst (draw h fld k)" "o_y p = snd (draw h fld k)"
      by (metis fst_conv, metis snd_conv)
    with k have "isDefined fld (o_x p) (o_y p)" by (simp add: D_def)
    with eq k least show ?thesis by (auto intro: defined_inside)
  qed
  have none: "(o_x p, o_y p) = draw h fld 30" if "\<forall>k<30. \<not> D k"
  proof -
    have "randomize_loop h fld 0 = randomize_loop h fld 30"
      using that by (intro randomize_loop_skip) (auto simp: D_def)
    also have "\<dots> = draw h fld 30"
      by (intro randomize_loop_stop) simp
    finally show ?thesis using xy by simp
  qed
  show ?thesis
    unfolding Let_def D_def[symmetric] p_def[symmetric]
    using more some none defined_inside by blast
qed

theorem randomize_returns_draw_witness:
  "isDefined (interpolateField example_host small_globe example_grids)
       (o_x (randomize example_host (interpolateField example_host small_globe example_grids) \<lparr>o_x = Fin 1, o_y = Fin 1\<rparr>))
       (o_y (randomize example_host (interpolateField example_host small_globe example_grids) \<lparr>o_x = Fin 1, o_y = Fin 1\<rparr>))
   \<and> isInsideBoundary (interpolateField example_host small_globe example_grids)
       (o_x (randomize example_host (interpolateField example_host small_globe example_grids) \<lparr>o_x = Fin 1, o_y = Fin 1\<rparr>))
       (o_y (randomize example_host (interpolateField example_host small_globe example_grids) \<lparr>o_x = Fin 1, o_y = Fin 1\<rparr>))"
proof -
  have ex: "\<exists>k<30. isDefined (interpolateField example_host small_globe example_grids)
      (fst (draw example_host (interpolateField example_host small_globe example_grids) k))
      (snd (draw example_host (interpolateField example_host small_globe example_grids) k))"
    by (rule exI[of _ 0]) (simp add: example_draw example_field_defined)
  show ?thesis
    using randomize_returns_draw[of example_host "interpolateField example_host small_globe example_grids"
        "\<lparr>o_x = Fin 1, o_y = Fin 1\<rparr>"] ex
    unfolding Let_def by blast
qed

text \<open>
  Claim C3 as stated fails: in the field of the canvas with only \<open>(1, 1)\<close> filled nothing
  is written, every draw is the point \<open>(0, 0)\<close>, and the point that \<open>randomize\<close> returns
  is not inside the boundary.
\<close>

theorem randomize_outside_boundary:
  "\<not> isInsideBoundary (interpolateField corner_host small_globe example_grids)
       (o_x (randomize corner_host (interpolateField corner_host small_globe example_grids) \<lparr>o_x = Fin 1, o_y = Fin 1\<rparr>))
       (o_y (randomize corner_host (interpolateField corner_host small_globe example_grids) \<lparr>o_x = Fin 1, o_y = Fin 1\<rparr>))"
proof -
  define fld where "fld = interpolateField corner_host small_globe example_grids"
  have nd: "\<not> isDefined fld (fst (draw corner_host fld j)) (snd (draw corner_host fld j))" for j
    by (simp add: fld_def corner_draw isDefined_def corner_lookup)
  have "randomize_loop corner_host fld 0 = randomize_loop corner_host fld 30"
    using nd by (intro randomize_loop_skip) auto
  also have "\<dots> = draw corner_host fld 30"
    by (intro randomize_loop_stop) simp
  finally have "randomize_loop corner_host fld 0 = (Fin 0, Fin 0)"
    by (simp add: fld_def corner_draw)
  then show ?thesis
    unfolding fld_def[symmetric]
    by (simp add: randomize_def Let_def isInsideBoundary_def fld_def corner_lookup)
qed

section \<open>The orientation of a globe\<close>

lemma split_comma_no_comma: "CHR '','' \<notin> set a \<Longrightarrow> split_comma a = [a]"
  by (induction a) auto

lemma split_comma_append:
  "CHR '','' \<notin> set a \<Longrightarrow> split_comma (a @ CHR '','' # r) = a # split_comma r"
  by (induction a) auto

lemma split_join3:
  assumes "CHR '','' \<notin> set a" "CHR '','' \<notin> set b" "CHR '','' \<notin> set c"
  shows "split_comma (join_comma [a, b, c]) = [a, b, c]"
  using assms by (simp add: split_comma_append split_comma_no_comma)



lemma clamp_inside:
  assumes "js_le lo x" "js_le x hi"
  shows "clamp x lo hi = x"
  using assms by (cases x; cases lo; cases hi) (auto simp: clamp_def)













text \<open>The getter followed by the setter, for a host whose number conversions are
  accurate on the strings of the getter.\<close>

lemma reorient_roundtrip:
  assumes rot: "p_rotate (g_projection g) = (Fin r0, Fin r1, r2)"
    and a: "h_toNumber h (h_toFixed h (Fin (- r0)) 2) = Fin a" "\<bar>a + r0\<bar> \<le> 1 / 100"
    and b: "h_toNumber h (h_toFixed h (Fin (- r1)) 2) = Fin b" "\<bar>b + r1\<bar> \<le> 1 / 100"
    and c: "h_toNumber h (h_toString h (math_round (p_scale (g_projection g))))
              = math_round (p_scale (g_projection g))"
    and commas: "CHR '','' \<notin> set (h_toFixed h (Fin (- r0)) 2)"
      "CHR '','' \<notin> set (h_toFixed h (Fin (- r1)) 2)"
      "CHR '','' \<notin> set (h_toString h (math_round (p_scale (g_projection g))))"
    and ext: "js_le (Fin 25) (math_round (p_scale (g_projection g)))"
      "js_le (math_round (p_scale (g_projection g))) (Fin 3000)"
  shows "reorient h g vw =
           This (g\<lparr>g_projection := (g_projection g)
                   \<lparr>p_rotate := (Fin (- a), Fin (- b), r2),
                    p_scale := math_round (p_scale (g_projection g)),
                    p_translate := g_center g vw\<rparr>\<rparr>)
         \<and> \<bar>(- a) - r0\<bar> \<le> 1 / 100 \<and> \<bar>(- b) - r1\<bar> \<le> 1 / 100"
proof -
  define A where "A = h_toFixed h (Fin (- r0)) 2"
  define B where "B = h_toFixed h (Fin (- r1)) 2"
  define C where "C = h_toString h (math_round (p_scale (g_projection g)))"
  have get: "orientation h g None vw = Orientation (join_comma [A, B, C])"
    by (simp add: orientation_def Let_def rot A_def B_def C_def)
  have parts: "split_comma (A @ CHR '','' # B @ CHR '','' # C) = [A, B, C]"
    using commas unfolding A_def B_def C_def
    by (simp add: split_comma_append split_comma_no_comma)
  have fin: "isFinite (math_round (p_scale (g_projection g)))"
    using ext by (cases "math_round (p_scale (g_projection g))") auto
  have cl: "clamp (math_round (p_scale (g_projection g))) (Fin 25) (Fin 3000)
      = math_round (p_scale (g_projection g))"
    using ext by (rule clamp_inside)
  have "orientation h g (Some (join_comma [A, B, C])) vw =
           This (g\<lparr>g_projection := (g_projection g)
                   \<lparr>p_rotate := (Fin (- a), Fin (- b), r2),
                    p_scale := math_round (p_scale (g_projection g)),
                    p_translate := g_center g vw\<rparr>\<rparr>)"
    using a(1) b(1) c fin cl
    by (simp add: orientation_def Let_def parts part_number_def
        A_def[symmetric] B_def[symmetric] C_def[symmetric] rot scaleExtent_def)
  moreover have "\<bar>(- a) - r0\<bar> \<le> 1 / 100" "\<bar>(- b) - r1\<bar> \<le> 1 / 100"
    using a(2) b(2) by linarith+
  ultimately show ?thesis
    by (simp add: reorient_def get)
qed




text \<open>
  The conversions of the example host are accurate in that sense for every finite angle
  and every integer: for this host the getter followed by the setter changes each angle by
  at most 0.005, whatever the globe, as long as its rounded scale is between 25 and 3000.
\<close>

lemma digit_cases:
  assumes "d < (10::nat)"
  shows "d = 0 \<or> d = 1 \<or> d = 2 \<or> d = 3 \<or> d = 4 \<or> d = 5 \<or> d = 6 \<or> d = 7 \<or> d = 8 \<or> d = 9"
  using assms by presburger

lemma digit_value_char: "d < 10 \<Longrightarrow> digit_value (digit_char d) = Some d"
  using digit_cases[of d] by (auto simp: digit_value_def digit_char_def)

lemma is_digit_char: "d < 10 \<Longrightarrow> is_digit (digit_char d)"
  by (simp add: is_digit_def digit_value_char)

lemma not_digit: "\<not> is_digit CHR ''.''" "\<not> is_digit CHR ''-''" "\<not> is_digit CHR ''+''" "\<not> is_digit CHR ''I''"
  by (simp_all add: is_digit_def digit_value_def)

lemma read_digits_append:
  "read_digits a (xs @ ys) = Option.bind (read_digits a xs) (\<lambda>v. read_digits v ys)"
  by (induction xs arbitrary: a) (auto split: option.splits)

lemma show_nat_digits: "\<forall>c\<in>set (show_nat n). is_digit c"
proof (induction n rule: show_nat.induct)
  case (1 n)
  show ?case
  proof (cases "n < 10")
    case True
    then show ?thesis by (subst show_nat.simps) (simp add: is_digit_char)
  next
    case False
    have "n mod 10 < 10" by simp
    then show ?thesis using False 1 by (subst show_nat.simps) (simp add: is_digit_char)
  qed
qed

lemma show_nat_nonempty: "show_nat n \<noteq> []"
  by (subst show_nat.simps) simp

lemma read_show_nat: "read_digits 0 (show_nat n) = Some n"
proof (induction n rule: show_nat.induct)
  case (1 n)
  show ?case
  proof (cases "n < 10")
    case True
    then show ?thesis by (subst show_nat.simps) (simp add: digit_value_char)
  next
    case False
    have "n mod 10 < 10" by simp
    then show ?thesis using False 1
      by (subst show_nat.simps) (simp add: read_digits_append digit_value_char)
  qed
qed

lemma show_nat_length: "n < 100 \<Longrightarrow> length (show_nat n) \<le> 2"
proof -
  assume n: "n < 100"
  show ?thesis
  proof (cases "n < 10")
    case True
    then show ?thesis by (subst show_nat.simps) simp
  next
    case False
    then have "n div 10 < 10" using n by simp
    then have "show_nat (n div 10) = [digit_char (n div 10)]" by (subst show_nat.simps) simp
    then show ?thesis using False by (subst show_nat.simps) simp
  qed
qed

lemma read_digits_zeros: "read_digits 0 (replicate k CHR ''0'' @ s) = read_digits 0 s"
  by (induction k) (simp_all add: digit_value_def)

lemma pad_zeros_read: "read_digits 0 (pad_zeros d (show_nat n)) = Some n"
  by (simp add: pad_zeros_def read_digits_zeros read_show_nat)

lemma pad_zeros_length: "n < 100 \<Longrightarrow> length (pad_zeros 2 (show_nat n)) = 2"
  using show_nat_length[of n] by (simp add: pad_zeros_def)

lemma takeWhile_digits:
  assumes "\<forall>c\<in>set xs. is_digit c"
  shows "takeWhile (\<lambda>c. c \<noteq> CHR ''.'') (xs @ CHR ''.'' # ys) = xs"
    and "dropWhile (\<lambda>c. c \<noteq> CHR ''.'') (xs @ CHR ''.'' # ys) = CHR ''.'' # ys"
  using assms not_digit(1) by (induction xs) auto

lemma read_unsigned_fixed:
  assumes "f < 100"
  shows "read_unsigned (show_nat i @ CHR ''.'' # pad_zeros 2 (show_nat f)) = Fin (real i + real f / 100)"
proof -
  define s where "s = show_nat i @ CHR ''.'' # pad_zeros 2 (show_nat f)"
  have ip: "takeWhile (\<lambda>c. c \<noteq> CHR ''.'') s = show_nat i"
    and rest: "dropWhile (\<lambda>c. c \<noteq> CHR ''.'') s = CHR ''.'' # pad_zeros 2 (show_nat f)"
    unfolding s_def using show_nat_digits[of i] by (rule takeWhile_digits)+
  have "hd s \<noteq> CHR ''I''"
    using show_nat_digits[of i] show_nat_nonempty[of i] not_digit(4)
    by (cases "show_nat i") (auto simp: s_def)
  then have inf: "s \<noteq> ''Infinity''" by auto
  show ?thesis
    unfolding s_def[symmetric]
    by (simp add: read_unsigned_def ip rest inf show_nat_nonempty read_show_nat pad_zeros_read
        pad_zeros_length[OF assms] Let_def)
qed

lemma toNumber_unsigned:
  assumes "s \<noteq> []" "is_digit (hd s)"
  shows "example_toNumber s = read_unsigned s"
  using assms not_digit by (cases s) (auto simp: example_toNumber_def)

lemma example_toFixed_roundtrip:
  "example_toNumber (example_toFixed (Fin r) 2) =
     Fin ((if r < 0 then - 1 else 1) * real (nat \<lfloor>\<bar>r\<bar> * 100 + 1 / 2\<rfloor>) / 100)"
proof -
  define n where "n = nat \<lfloor>\<bar>r\<bar> * 100 + 1 / 2\<rfloor>"
  define u where "u = show_nat (n div 100) @ CHR ''.'' # pad_zeros 2 (show_nat (n mod 100))"
  have val: "read_unsigned u = Fin (real n / 100)"
  proof -
    have "read_unsigned u = Fin (real (n div 100) + real (n mod 100) / 100)"
      unfolding u_def by (rule read_unsigned_fixed) simp
    moreover have "real (n div 100) + real (n mod 100) / 100 = real n / 100"
    proof -
      have e: "n div 100 * 100 + n mod 100 = n" by simp
      have "real (n div 100) * 100 + real (n mod 100) = real (n div 100 * 100 + n mod 100)"
        by (simp only: of_nat_add of_nat_mult of_nat_numeral)
      also have "\<dots> = real n" by (simp only: e)
      finally show ?thesis by simp
    qed
    ultimately show ?thesis by simp
  qed
  have dig: "u \<noteq> []" "is_digit (hd u)"
    using show_nat_digits[of "n div 100"] show_nat_nonempty[of "n div 100"]
    by (cases "show_nat (n div 100)"; simp add: u_def)+
  show ?thesis
  proof (cases "r < 0")
    case True
    then have "example_toFixed (Fin r) 2 = CHR ''-'' # u"
      by (simp add: Let_def n_def u_def)
    then show ?thesis using True val by (simp add: example_toNumber_def n_def)
  next
    case False
    then have "example_toFixed (Fin r) 2 = u"
      by (simp add: Let_def n_def u_def)
    then show ?thesis using False val toNumber_unsigned[OF dig] by (simp add: n_def)
  qed
qed

lemma round_hundredth:
  "\<bar>(if r < 0 then - 1 else 1) * real (nat \<lfloor>\<bar>r\<bar> * 100 + 1 / 2\<rfloor>) / 100 - r\<bar> \<le> 1 / 200"
proof -
  define n where "n = \<lfloor>\<bar>r\<bar> * 100 + 1 / 2\<rfloor>"
  have n0: "0 \<le> n" unfolding n_def by (simp add: zero_le_floor)
  have "real_of_int n \<le> \<bar>r\<bar> * 100 + 1 / 2" "\<bar>r\<bar> * 100 + 1 / 2 < real_of_int n + 1"
    unfolding n_def by linarith+
  then have "\<bar>real_of_int n / 100 - \<bar>r\<bar>\<bar> \<le> 1 / 200" by linarith
  moreover have "real (nat n) = real_of_int n" using n0 by simp
  ultimately have le: "\<bar>real (nat n) / 100 - \<bar>r\<bar>\<bar> \<le> 1 / 200" by simp
  show ?thesis
  proof (cases "r < 0")
    case True
    then have "(if r < 0 then - 1 else 1) * real (nat n) / 100 - r = - (real (nat n) / 100 - \<bar>r\<bar>)"
      by simp
    then show ?thesis using le unfolding n_def by (simp only: abs_minus_cancel)
  next
    case False
    then have "(if r < 0 then - 1 else 1) * real (nat n) / 100 - r = real (nat n) / 100 - \<bar>r\<bar>"
      by simp
    then show ?thesis using le unfolding n_def by (simp only:)
  qed
qed

lemma comma_not_digit: "\<not> is_digit CHR '',''"
  by (simp add: is_digit_def digit_value_def)

lemma zero_is_digit: "is_digit CHR ''0''"
  by (simp add: is_digit_def digit_value_def)

lemma pad_zeros_digits: "\<forall>c\<in>set (pad_zeros d (show_nat n)). is_digit c"
  using show_nat_digits[of n] zero_is_digit by (auto simp: pad_zeros_def)

lemma toFixed_no_comma: "CHR '','' \<notin> set (example_toFixed (Fin r) d)"
  using show_nat_digits pad_zeros_digits comma_not_digit
  by (auto simp: Let_def)

lemma toString_no_comma: "CHR '','' \<notin> set (example_toString (Fin r))"
  unfolding example_toString_def math_floor.simps by (rule toFixed_no_comma)

lemma read_unsigned_nat: "read_unsigned (show_nat n) = Fin (real n)"
proof -
  have all: "\<forall>c\<in>set (show_nat n). c \<noteq> CHR ''.''"
    using show_nat_digits[of n] not_digit(1) by auto
  then have ip: "takeWhile (\<lambda>c. c \<noteq> CHR ''.'') (show_nat n) = show_nat n"
    and rest: "dropWhile (\<lambda>c. c \<noteq> CHR ''.'') (show_nat n) = []"
    by simp_all
  have "hd (show_nat n) \<noteq> CHR ''I''"
    using show_nat_digits[of n] show_nat_nonempty[of n] not_digit(4)
    by (cases "show_nat n") auto
  then have inf: "show_nat n \<noteq> ''Infinity''" by auto
  show ?thesis
    by (simp add: read_unsigned_def ip rest inf show_nat_nonempty read_show_nat Let_def)
qed

lemma example_toString_roundtrip:
  "example_toNumber (example_toString (Fin (of_int k))) = Fin (of_int k)"
proof -
  have fl: "\<lfloor>\<bar>real_of_int k\<bar> + 1 / 2\<rfloor> = \<bar>k\<bar>" by linarith
  have dig: "show_nat (nat \<bar>k\<bar>) \<noteq> []" "is_digit (hd (show_nat (nat \<bar>k\<bar>)))"
    using show_nat_digits[of "nat \<bar>k\<bar>"] show_nat_nonempty[of "nat \<bar>k\<bar>"]
    by (cases "show_nat (nat \<bar>k\<bar>)"; simp)+
  show ?thesis
  proof (cases "k < 0")
    case True
    then have "example_toString (Fin (of_int k)) = CHR ''-'' # show_nat (nat \<bar>k\<bar>)"
      by (simp add: example_toString_def Let_def fl)
    then show ?thesis using True by (simp add: example_toNumber_def read_unsigned_nat)
  next
    case False
    then have "example_toString (Fin (of_int k)) = show_nat (nat \<bar>k\<bar>)"
      by (simp add: example_toString_def Let_def fl)
    then show ?thesis using False toNumber_unsigned[OF dig] by (simp add: read_unsigned_nat)
  qed
qed

lemma example_host_conv:
  "h_toNumber example_host = example_toNumber" "h_toFixed example_host = example_toFixed"
  "h_toString example_host = example_toString"
  by (simp_all add: example_host_def)

corollary example_host_reorient:
  assumes rot: "p_rotate (g_projection g) = (Fin r0, Fin r1, r2)"
    and sc: "p_scale (g_projection g) = Fin s"
    and ext: "25 \<le> \<lfloor>s + 1 / 2\<rfloor>" "\<lfloor>s + 1 / 2\<rfloor> \<le> 3000"
  shows "\<exists>a b. reorient example_host g vw =
           This (g\<lparr>g_projection := (g_projection g)
                   \<lparr>p_rotate := (Fin a, Fin b, r2),
                    p_scale := Fin (of_int \<lfloor>s + 1 / 2\<rfloor>),
                    p_translate := g_center g vw\<rparr>\<rparr>)
         \<and> \<bar>a - r0\<bar> \<le> 1 / 200 \<and> \<bar>b - r1\<bar> \<le> 1 / 200"
proof -
  define a where "a = (if - r0 < 0 then - 1 else 1) * real (nat \<lfloor>\<bar>- r0\<bar> * 100 + 1 / 2\<rfloor>) / 100"
  define b where "b = (if - r1 < 0 then - 1 else 1) * real (nat \<lfloor>\<bar>- r1\<bar> * 100 + 1 / 2\<rfloor>) / 100"
  have a: "h_toNumber example_host (h_toFixed example_host (Fin (- r0)) 2) = Fin a"
    and b: "h_toNumber example_host (h_toFixed example_host (Fin (- r1)) 2) = Fin b"
    unfolding example_host_conv a_def b_def by (rule example_toFixed_roundtrip)+
  have a2: "\<bar>a + r0\<bar> \<le> 1 / 200" and b2: "\<bar>b + r1\<bar> \<le> 1 / 200"
    using round_hundredth[of "- r0"] round_hundredth[of "- r1"] unfolding a_def b_def by simp_all
  have r: "math_round (p_scale (g_projection g)) = Fin (of_int \<lfloor>s + 1 / 2\<rfloor>)"
    by (simp add: sc)
  have c: "h_toNumber example_host (h_toString example_host (math_round (p_scale (g_projection g))))
              = math_round (p_scale (g_projection g))"
    unfolding r example_host_conv by (rule example_toString_roundtrip)
  have commas: "CHR '','' \<notin> set (h_toFixed example_host (Fin (- r0)) 2)"
      "CHR '','' \<notin> set (h_toFixed example_host (Fin (- r1)) 2)"
      "CHR '','' \<notin> set (h_toString example_host (math_round (p_scale (g_projection g))))"
    unfolding r example_host_conv by (rule toFixed_no_comma toString_no_comma)+
  define k where "k = \<lfloor>s + 1 / 2\<rfloor>"
  have "real_of_int 25 \<le> real_of_int k" "real_of_int k \<le> real_of_int 3000"
    using ext unfolding k_def by (simp_all only: of_int_le_iff)
  then have k: "25 \<le> real_of_int k" "real_of_int k \<le> 3000" by simp_all
  have e: "js_le (Fin 25) (math_round (p_scale (g_projection g)))"
      "js_le (math_round (p_scale (g_projection g))) (Fin 3000)"
    using k unfolding r k_def[symmetric] by auto
  have a1: "\<bar>a + r0\<bar> \<le> 1 / 100" and b1: "\<bar>b + r1\<bar> \<le> 1 / 100"
    using a2 b2 by simp_all
  from reorient_roundtrip[OF rot a a1 b b1 c commas e, of vw]
  have "reorient example_host g vw =
           This (g\<lparr>g_projection := (g_projection g)
                   \<lparr>p_rotate := (Fin (- a), Fin (- b), r2),
                    p_scale := Fin (of_int \<lfloor>s + 1 / 2\<rfloor>),
                    p_translate := g_center g vw\<rparr>\<rparr>)"
    by (simp add: r)
  moreover have "\<bar>(- a) - r0\<bar> \<le> 1 / 200" "\<bar>(- b) - r1\<bar> \<le> 1 / 200"
    using a2 b2 by linarith+
  ultimately show ?thesis by blast
qed

section \<open>Gestures\<close>

lemma zoomstart_idle:
  assumes "c_op c = None"
  shows "\<exists>op. c_op (zoomstart c mouse) = Some op \<and> op_type op = Click
           \<and> op_startMouse op = mouse \<and> op_startScale op = Fin 1"
  using assms by (simp add: zoomstart_def newOp_def Let_def)

lemma zoom_step:
  assumes "c_op c = Some op"
  shows "\<exists>op'. c_op (zoom h c m s) = Some op'
           \<and> op_startMouse op' = op_startMouse op \<and> op_startScale op' = op_startScale op
           \<and> op_type op' =
               (if (op_type op = Click \<or> op_type op = Spurious) \<and> js_eq s (op_startScale op)
                   \<and> js_less (h_distance h m (op_startMouse op)) MIN_MOVE
                then (if js_less (Fin 0) (h_distance h m (op_startMouse op)) then Click else Spurious)
                else if \<not> js_eq s (op_startScale op) then Zoom
                else if op_type op = Click \<or> op_type op = Spurious then Drag
                else op_type op)"
  using assms by (simp add: zoom_def Let_def)

lemma zoom_events_snoc:
  "zoom_events h c (events @ [e]) = zoom h (zoom_events h c events) (fst e) (snd e)"
  by (simp add: zoom_events_def)

lemma zoom_events_type:
  assumes "c_op c = Some op" and "op_type op = Click" and "op_startMouse op = start"
    and "op_startScale op = Fin 1"
  shows "\<exists>op'. c_op (zoom_events h c events) = Some op'
           \<and> op_startMouse op' = start \<and> op_startScale op' = Fin 1
           \<and> op_type op' =
               (if \<exists>e\<in>set events. \<not> js_eq (snd e) (Fin 1) then Zoom
                else if \<exists>e\<in>set events. \<not> js_less (h_distance h (fst e) start) MIN_MOVE then Drag
                else if events = [] then Click
                else if js_less (Fin 0) (h_distance h (fst (last events)) start) then Click
                else Spurious)"
proof (induction events rule: rev_induct)
  case Nil
  then show ?case using assms by (simp add: zoom_events_def)
next
  case (snoc e events)
  then obtain op1 where op1: "c_op (zoom_events h c events) = Some op1"
    "op_startMouse op1 = start" "op_startScale op1 = Fin 1"
    and t1: "op_type op1 =
               (if \<exists>e\<in>set events. \<not> js_eq (snd e) (Fin 1) then Zoom
                else if \<exists>e\<in>set events. \<not> js_less (h_distance h (fst e) start) MIN_MOVE then Drag
                else if events = [] then Click
                else if js_less (Fin 0) (h_distance h (fst (last events)) start) then Click
                else Spurious)"
    by blast
  from zoom_step[OF op1(1), of h "fst e" "snd e"] obtain op2 where
    op2: "c_op (zoom h (zoom_events h c events) (fst e) (snd e)) = Some op2"
      "op_startMouse op2 = start" "op_startScale op2 = Fin 1"
    and t2: "op_type op2 =
               (if (op_type op1 = Click \<or> op_type op1 = Spurious) \<and> js_eq (snd e) (Fin 1)
                   \<and> js_less (h_distance h (fst e) start) MIN_MOVE
                then (if js_less (Fin 0) (h_distance h (fst e) start) then Click else Spurious)
                else if \<not> js_eq (snd e) (Fin 1) then Zoom
                else if op_type op1 = Click \<or> op_type op1 = Spurious then Drag
                else op_type op1)"
    using op1 by auto
  have "op_type op2 =
               (if \<exists>e\<in>set (events @ [e]). \<not> js_eq (snd e) (Fin 1) then Zoom
                else if \<exists>e\<in>set (events @ [e]). \<not> js_less (h_distance h (fst e) start) MIN_MOVE then Drag
                else if events @ [e] = [] then Click
                else if js_less (Fin 0) (h_distance h (fst (last (events @ [e]))) start) then Click
                else Spurious)"
    unfolding t2 t1 by (auto split: if_splits)
  with op2 show ?case unfolding zoom_events_snoc by blast
qed

lemma gesture_type_idle:
  assumes "c_op c = None"
  shows "gesture_type h c start events =
           Some (if \<exists>e\<in>set events. \<not> js_eq (snd e) (Fin 1) then Zoom
                 else if \<exists>e\<in>set events. \<not> js_less (h_distance h (fst e) start) MIN_MOVE then Drag
                 else if events = [] then Click
                 else if js_less (Fin 0) (h_distance h (fst (last events)) start) then Click
                 else Spurious)"
proof -
  from zoomstart_idle[OF assms, of start] obtain op where
    "c_op (zoomstart c start) = Some op" "op_type op = Click"
    "op_startMouse op = start" "op_startScale op = Fin 1"
    by blast
  from zoom_events_type[OF this, of h events] obtain op' where
    "c_op (zoom_events h (zoomstart c start) events) = Some op'"
    "op_type op' =
       (if \<exists>e\<in>set events. \<not> js_eq (snd e) (Fin 1) then Zoom
        else if \<exists>e\<in>set events. \<not> js_less (h_distance h (fst e) start) MIN_MOVE then Drag
        else if events = [] then Click
        else if js_less (Fin 0) (h_distance h (fst (last events)) start) then Click
        else Spurious)"
    by blast
  then show ?thesis
    by (simp only: gesture_type_def option.map)
qed

lemma idle_controller_op: "c_op idle_controller = None"
  by (simp add: idle_controller_def)

lemma example_distance_eval:
  "h_distance example_host (Fin ax, Fin ay) (Fin bx, Fin by) = Fin (sqrt ((bx - ax)\<^sup>2 + (by - ay)\<^sup>2))"
  by (simp add: example_host_def example_distance_def)

text \<open>
  Claim C6, as the code has it. Take an interaction that starts with no operation going
  on: \<open>zoomstart\<close> at pointer-down, then the \<open>zoom\<close> events, each with a pointer position
  and a scale, then \<open>zoomend\<close> at pointer-up. If some event has a scale other than the
  start scale 1, the operation is a zoom, and it stays a zoom whatever events follow.
  Otherwise, if some event is not less than 4 pixels from the start position, it is a
  drag. Otherwise, with no \<open>zoom\<close> event at all it is a click; with events, the last one
  decides: a click if its distance from the start is more than 0, spurious if it is 0.
\<close>

theorem gesture_classification:
  assumes "c_op c = None"
  shows "gesture_type h c start events =
           Some (if \<exists>e\<in>set events. \<not> js_eq (snd e) (Fin 1) then Zoom
                 else if \<exists>e\<in>set events. \<not> js_less (h_distance h (fst e) start) MIN_MOVE then Drag
                 else if events = [] then Click
                 else if js_less (Fin 0) (h_distance h (fst (last events)) start) then Click
                 else Spurious)
         \<and> (gesture_type h c start events = Some Zoom
              \<longrightarrow> gesture_type h c start (events @ later) = Some Zoom)"
proof -
  note first = gesture_type_idle[OF assms, of h start events]
  note both = gesture_type_idle[OF assms, of h start "events @ later"]
  have "gesture_type h c start (events @ later) = Some Zoom"
    if "gesture_type h c start events = Some Zoom"
  proof -
    from that first have "\<exists>e\<in>set events. \<not> js_eq (snd e) (Fin 1)"
      by (auto split: if_splits)
    then have "\<exists>e\<in>set (events @ later). \<not> js_eq (snd e) (Fin 1)"
      by auto
    with both show ?thesis by (simp only: if_True)
  qed
  with first show ?thesis by blast
qed

theorem gesture_classification_witness:
  "gesture_type example_host idle_controller (Fin 3, Fin 5) [((Fin 4, Fin 5), Fin 1)] = Some Click
   \<and> gesture_type example_host idle_controller (Fin 3, Fin 5) [((Fin 3, Fin 5), Fin 1)] = Some Spurious
   \<and> gesture_type example_host idle_controller (Fin 3, Fin 5)
        [((Fin 4, Fin 5), Fin 1), ((Fin 13, Fin 5), Fin 1), ((Fin 3, Fin 5), Fin 1)] = Some Drag
   \<and> gesture_type example_host idle_controller (Fin 3, Fin 5)
        [((Fin 4, Fin 5), Fin 2), ((Fin 4, Fin 5), Fin 1)] = Some Zoom"
  using gesture_classification[OF idle_controller_op, of example_host "(Fin 3, Fin 5)" "[((Fin 4, Fin 5), Fin 1)]"]
    gesture_classification[OF idle_controller_op, of example_host "(Fin 3, Fin 5)" "[((Fin 3, Fin 5), Fin 1)]"]
    gesture_classification[OF idle_controller_op, of example_host "(Fin 3, Fin 5)"
      "[((Fin 4, Fin 5), Fin 1), ((Fin 13, Fin 5), Fin 1), ((Fin 3, Fin 5), Fin 1)]"]
    gesture_classification[OF idle_controller_op, of example_host "(Fin 3, Fin 5)"
      "[((Fin 4, Fin 5), Fin 2), ((Fin 4, Fin 5), Fin 1)]"]
  by (simp add: example_distance_eval MIN_MOVE_def)

text \<open>
  Claim C6 as stated fails for zero movement: a pointer-down followed by a pointer-up with
  no \<open>zoom\<close> event between them has no movement and no scale change, and the operation
  keeps the type \<open>click\<close> it was created with.
\<close>

theorem click_without_movement:
  "gesture_type example_host idle_controller (Fin 3, Fin 5) [] = Some Click"
  by (simp add: gesture_type_def zoom_events_def zoomstart_def newOp_def idle_controller_def Let_def)

end
